theory Spec2Isabelle
  imports Complex_Main
begin

section \<open>Errors raised by the tensor library and by assertions\<close>

datatype error =
    EmptyReduction    \<comment> \<open>\<open>min()\<close>/\<open>max()\<close> of a tensor without elements\<close>
  | EmptyConcat       \<comment> \<open>\<open>torch.concat\<close> of an empty list of tensors\<close>
  | AssertionError    \<comment> \<open>a failed \<open>assert\<close>\<close>
  | ShapeError        \<comment> \<open>operands that cannot be broadcast together\<close>
  | KeyError          \<comment> \<open>a key that a dictionary does not hold\<close>

section \<open>The threshold evaluator (\<open>hierarchy_transformers/evaluation/hit_eval.py\<close>)\<close>

subsection \<open>Score matrix\<close>

text \<open>
  A score matrix is the \<open>N \<times> 4\<close> tensor built by \<open>evaluate_dataloader\<close> from
  \<open>torch.stack([labels, dists, rep_anchor_norms, rep_other_norms]).T\<close>: one row per pair,
  columns 0 to 3. Entries are modelled as exact rationals; rounding is not part of the model.
\<close>

record score_row =
  row_label :: rat        \<comment> \<open>column 0\<close>
  row_dist :: rat         \<comment> \<open>column 1\<close>
  row_anchor_norm :: rat  \<comment> \<open>column 2\<close>
  row_other_norm :: rat   \<comment> \<open>column 3\<close>

type_synonym score_matrix = "score_row list"

text \<open>Column selection \<open>result_mat[:, k]\<close>.\<close>

definition column :: "(score_row \<Rightarrow> rat) \<Rightarrow> score_matrix \<Rightarrow> rat list" where
  "column sel mat = map sel mat"

text \<open>Elementwise arithmetic on one-dimensional tensors of equal length.\<close>

definition tensor_add :: "rat list \<Rightarrow> rat list \<Rightarrow> rat list" where
  "tensor_add xs ys = map2 (+) xs ys"

definition tensor_sub :: "rat list \<Rightarrow> rat list \<Rightarrow> rat list" where
  "tensor_sub xs ys = map2 (-) xs ys"

definition scalar_mul :: "rat \<Rightarrow> rat list \<Rightarrow> rat list" where
  "scalar_mul w xs = map ((*) w) xs"

text \<open>
  \<open>scores = result_mat[:, 1] + centri_score_weight * (result_mat[:, 3] - result_mat[:, 2])\<close>
  (lines 53 and 69).
\<close>

definition composite_scores :: "score_matrix \<Rightarrow> rat \<Rightarrow> rat list" where
  "composite_scores mat w =
     tensor_add (column row_dist mat)
       (scalar_mul w (tensor_sub (column row_other_norm mat) (column row_anchor_norm mat)))"

subsection \<open>Classification metrics\<close>

text \<open>
  The dictionary returned by \<open>threshold_evaluate\<close>. A metric whose quotient is \<open>0 / 0\<close>
  is NaN, written \<open>None\<close>.
\<close>

record metrics =
  threshold :: rat
  precision :: "rat option"
  recall :: "rat option"
  F1 :: "rat option"
  accuracy :: "rat option"

type_synonym threshold_eval = "rat list \<Rightarrow> rat list \<Rightarrow> rat \<Rightarrow> metrics"

text \<open>Tensor division of two counts: \<open>0 / 0\<close> is NaN.\<close>

definition count_div :: "nat \<Rightarrow> nat \<Rightarrow> rat option" where
  "count_div a b = (if b = 0 then None else Some (of_nat a / of_nat b))"

definition harmonic :: "rat option \<Rightarrow> rat option \<Rightarrow> rat option" where
  "harmonic p r =
     (case p of None \<Rightarrow> None | Some pv \<Rightarrow>
      (case r of None \<Rightarrow> None | Some rv \<Rightarrow>
        (if pv + rv = 0 then None else Some (2 * pv * rv / (pv + rv)))))"

text \<open>
  Modelled from the spec: \<open>threshold_evaluate\<close> of \<open>eval_functions.py\<close>, which is imported by
  \<open>hit_eval.py\<close> and is not among the sources. Section 4.4 of the specification: a row is
  predicted positive when \<open>score \<le> threshold\<close>, and precision, recall, F1 and accuracy are
  computed from the predictions and the label column.
\<close>

definition threshold_evaluate :: threshold_eval where
  "threshold_evaluate scores labels t =
     (let rows = zip scores labels;
          tp = length (filter (\<lambda>(s, l). s \<le> t \<and> l = 1) rows);
          fp = length (filter (\<lambda>(s, l). s \<le> t \<and> l \<noteq> 1) rows);
          fn = length (filter (\<lambda>(s, l). \<not> s \<le> t \<and> l = 1) rows);
          tn = length (filter (\<lambda>(s, l). \<not> s \<le> t \<and> l \<noteq> 1) rows);
          p = count_div tp (tp + fp);
          r = count_div tp (tp + fn)
      in \<lparr>threshold = t, precision = p, recall = r, F1 = harmonic p r,
          accuracy = count_div (tp + tn) (length rows)\<rparr>)"

subsection \<open>\<open>HierarchyRetrainedEvaluator.evaluate\<close>\<close>

text \<open>The dictionary \<open>{"centri_score_weight": w}\<close> updated with the metrics.\<close>

record results =
  centri_score_weight :: rat
  scores_of :: metrics

record search_state =
  best_f1 :: rat
  best_results :: "results option"
  is_updated :: bool

text \<open>\<open>int(x)\<close> truncates towards zero.\<close>

definition py_int :: "rat \<Rightarrow> int" where
  "py_int x = (if 0 \<le> x then \<lfloor>x\<rfloor> else \<lceil>x\<rceil>)"

text \<open>\<open>scores.min()\<close> and \<open>scores.max()\<close> raise on a tensor without elements.\<close>

definition tensor_min :: "rat list \<Rightarrow> error + rat" where
  "tensor_min xs = (case xs of [] \<Rightarrow> Inl EmptyReduction | y # ys \<Rightarrow> Inr (fold min ys y))"

definition tensor_max :: "rat list \<Rightarrow> error + rat" where
  "tensor_max xs = (case xs of [] \<Rightarrow> Inl EmptyReduction | y # ys \<Rightarrow> Inr (fold max ys y))"

text \<open>
  The thresholds of one weight (lines 71 to 74): \<open>range(start, end)\<close> is half open, and each
  integer is divided by the granularity. With granularity 0 both bounds are 0 and the range
  is empty, so the division is never reached.
\<close>

definition threshold_range :: "rat list \<Rightarrow> int \<Rightarrow> error + rat list" where
  "threshold_range scores g =
     (case tensor_min scores of Inl e \<Rightarrow> Inl e | Inr mn \<Rightarrow>
      (case tensor_max scores of Inl e \<Rightarrow> Inl e | Inr mx \<Rightarrow>
        (let start = py_int (mn * of_int g); end = py_int (mx * of_int g)
         in Inr (map (\<lambda>k. of_int k / of_int g) [start..end - 1]))))"

text \<open>
  The body of the inner loop (lines 75 to 80). A NaN F1 compares false with \<open>best_f1\<close>.
\<close>

definition threshold_step ::
  "threshold_eval \<Rightarrow> rat list \<Rightarrow> rat list \<Rightarrow> rat \<Rightarrow> search_state \<Rightarrow> rat \<Rightarrow> search_state" where
  "threshold_step te scores labels w st t =
     (let res = te scores labels t
      in case F1 res of
           None \<Rightarrow> st
         | Some f \<Rightarrow>
             if f > best_f1 st
             then \<lparr>best_f1 = f,
                   best_results = Some \<lparr>centri_score_weight = w, scores_of = res\<rparr>,
                   is_updated = True\<rparr>
             else st)"

text \<open>
  The outer loop \<open>for centri_score_weight in range(10)\<close> (lines 62 to 80), over the remaining
  values of the loop variable.
\<close>

fun weight_loop ::
  "threshold_eval \<Rightarrow> score_matrix \<Rightarrow> int \<Rightarrow> nat list \<Rightarrow> search_state \<Rightarrow> error + search_state" where
  "weight_loop te mat g [] st = Inr st"
| "weight_loop te mat g (i # rest) st =
     (if \<not> is_updated st then Inr st
      else
        (let w = of_nat (i + 1);
             scores = composite_scores mat w
         in case threshold_range scores g of
              Inl e \<Rightarrow> Inl e
            | Inr ts \<Rightarrow>
                weight_loop te mat g rest
                  (fold (\<lambda>t s. threshold_step te scores (column row_label mat) w s t) ts
                     (st\<lparr>is_updated := False\<rparr>))))"

text \<open>Truthiness of an optional float: \<open>None\<close> and \<open>0.0\<close> are false.\<close>

definition truthy :: "rat option \<Rightarrow> bool" where
  "truthy x = (case x of None \<Rightarrow> False | Some v \<Rightarrow> v \<noteq> 0)"

definition apply_mode :: "threshold_eval \<Rightarrow> score_matrix \<Rightarrow> rat \<Rightarrow> rat \<Rightarrow> results" where
  "apply_mode te mat w t =
     \<lparr>centri_score_weight = w,
      scores_of = te (composite_scores mat w) (column row_label mat) t\<rparr>"

definition search_mode :: "threshold_eval \<Rightarrow> score_matrix \<Rightarrow> int \<Rightarrow> error + results option" where
  "search_mode te mat g =
     (case weight_loop te mat g [0..<10]
             \<lparr>best_f1 = - 1, best_results = None, is_updated = True\<rparr> of
        Inl e \<Rightarrow> Inl e
      | Inr st \<Rightarrow> Inr (best_results st))"

text \<open>
  \<open>evaluate(result_mat, granuality, best_val_centri_score_weight, best_val_threshold)\<close>.
  The result \<open>Inr None\<close> is Python's \<open>None\<close>.
\<close>

definition evaluate ::
  "threshold_eval \<Rightarrow> score_matrix \<Rightarrow> int \<Rightarrow> rat option \<Rightarrow> rat option \<Rightarrow> error + results option" where
  "evaluate te mat g best_val_centri_score_weight best_val_threshold =
     (if truthy best_val_threshold \<and> truthy best_val_centri_score_weight
      then (case (best_val_centri_score_weight, best_val_threshold) of
              (Some w, Some t) \<Rightarrow> Inr (Some (apply_mode te mat w t))
            | _ \<Rightarrow> search_mode te mat g)
      else search_mode te mat g)"

subsection \<open>The search, as the specification words it\<close>

text \<open>
  The grid of loop index \<open>i\<close>: the weight \<open>i + 1\<close> paired with each threshold of its range,
  in the order of the scan.
\<close>

definition grid :: "score_matrix \<Rightarrow> int \<Rightarrow> nat \<Rightarrow> (rat \<times> rat) list" where
  "grid mat g i =
     (let w = of_nat (i + 1)
      in case threshold_range (composite_scores mat w) g of
           Inl e \<Rightarrow> []
         | Inr ts \<Rightarrow> map (Pair w) ts)"

text \<open>The grid of the first \<open>n\<close> weights, weight by weight.\<close>

definition grid_upto :: "score_matrix \<Rightarrow> int \<Rightarrow> nat \<Rightarrow> (rat \<times> rat) list" where
  "grid_upto mat g n = concat (map (grid mat g) [0..<n])"

text \<open>The result dictionary of one grid point.\<close>

definition candidate :: "threshold_eval \<Rightarrow> score_matrix \<Rightarrow> rat \<times> rat \<Rightarrow> results" where
  "candidate te mat p =
     \<lparr>centri_score_weight = fst p,
      scores_of = te (composite_scores mat (fst p)) (column row_label mat) (snd p)\<rparr>"

definition candidates :: "threshold_eval \<Rightarrow> score_matrix \<Rightarrow> int \<Rightarrow> nat \<Rightarrow> results list" where
  "candidates te mat g i = map (candidate te mat) (grid mat g i)"

definition candidates_upto :: "threshold_eval \<Rightarrow> score_matrix \<Rightarrow> int \<Rightarrow> nat \<Rightarrow> results list" where
  "candidates_upto te mat g n = map (candidate te mat) (grid_upto mat g n)"

definition f1_of :: "results \<Rightarrow> rat option" where
  "f1_of r = F1 (scores_of r)"

text \<open>An F1 value improves on \<open>b\<close> when it is a number greater than \<open>b\<close>.\<close>

definition beats :: "rat option \<Rightarrow> rat \<Rightarrow> bool" where
  "beats x b = (case x of None \<Rightarrow> False | Some f \<Rightarrow> f > b)"

text \<open>The greatest F1 among \<open>b\<close> and the candidates.\<close>

definition f1_max :: "results list \<Rightarrow> rat \<Rightarrow> rat" where
  "f1_max cs b = fold (\<lambda>r m. case f1_of r of None \<Rightarrow> m | Some f \<Rightarrow> max m f) cs b"

text \<open>The best F1 seen after a list of candidates, starting from \<open>-1.0\<close>.\<close>

definition best_seen :: "results list \<Rightarrow> rat" where
  "best_seen cs = f1_max cs (- 1)"

text \<open>
  The first candidate, in scan order, whose F1 is the best seen; no candidate when none has
  an F1 above \<open>-1.0\<close>.
\<close>

definition first_best :: "results list \<Rightarrow> results option" where
  "first_best cs =
     (if list_ex (\<lambda>r. beats (f1_of r) (- 1)) cs
      then find (\<lambda>r. f1_of r = Some (best_seen cs)) cs
      else None)"

text \<open>
  The scan of loop index \<open>i\<close> brings no improvement: none of its candidates has an F1 above
  the best seen at the weights before it.
\<close>

definition no_improvement :: "threshold_eval \<Rightarrow> score_matrix \<Rightarrow> int \<Rightarrow> nat \<Rightarrow> bool" where
  "no_improvement te mat g i =
     (\<not> list_ex (\<lambda>r. beats (f1_of r) (best_seen (candidates_upto te mat g i)))
          (candidates te mat g i))"

text \<open>
  The number of weights scanned: up to and including the first one without improvement,
  all ten otherwise.
\<close>

definition weights_scanned :: "threshold_eval \<Rightarrow> score_matrix \<Rightarrow> int \<Rightarrow> nat" where
  "weights_scanned te mat g =
     (case find (no_improvement te mat g) [0..<10] of None \<Rightarrow> 10 | Some i \<Rightarrow> i + 1)"

text \<open>Scan order: by weight, then by threshold.\<close>

definition scan_before :: "rat \<times> rat \<Rightarrow> rat \<times> rat \<Rightarrow> bool" where
  "scan_before p q = (fst p < fst q \<or> (fst p = fst q \<and> snd p < snd q))"

text \<open>A threshold is tried for a tensor of scores when it is in the range scanned.\<close>

definition tried :: "rat list \<Rightarrow> int \<Rightarrow> rat \<Rightarrow> bool" where
  "tried scores g t =
     (case threshold_range scores g of Inl e \<Rightarrow> False | Inr ts \<Rightarrow> t \<in> set ts)"

text \<open>One step of the inner loop on a candidate that is already evaluated.\<close>

definition candidate_step :: "search_state \<Rightarrow> results \<Rightarrow> search_state" where
  "candidate_step s r =
     (case f1_of r of
        None \<Rightarrow> s
      | Some f \<Rightarrow>
          if f > best_f1 s
          then \<lparr>best_f1 = f, best_results = Some r, is_updated = True\<rparr>
          else s)"

subsection \<open>Example matrices\<close>

text \<open>The two rows of the end-to-end example of the specification.\<close>

definition example_matrix :: score_matrix where
  "example_matrix =
     [\<lparr>row_label = 1, row_dist = 1 / 2, row_anchor_norm = 9 / 10, row_other_norm = 3 / 10\<rparr>,
      \<lparr>row_label = 0, row_dist = 3, row_anchor_norm = 9 / 10, row_other_norm = 9 / 10\<rparr>]"

text \<open>A validation matrix whose best threshold is \<open>0.0\<close>, and a test matrix.\<close>

definition val_matrix :: score_matrix where
  "val_matrix =
     [\<lparr>row_label = 1, row_dist = 3 / 10, row_anchor_norm = 9 / 10, row_other_norm = 6 / 10\<rparr>,
      \<lparr>row_label = 0, row_dist = 1, row_anchor_norm = 9 / 10, row_other_norm = 9 / 10\<rparr>]"

definition test_matrix :: score_matrix where
  "test_matrix =
     [\<lparr>row_label = 1, row_dist = 1 / 2, row_anchor_norm = 9 / 10, row_other_norm = 3 / 10\<rparr>,
      \<lparr>row_label = 0, row_dist = 4 / 5, row_anchor_norm = 9 / 10, row_other_norm = 1 / 10\<rparr>,
      \<lparr>row_label = 0, row_dist = 1, row_anchor_norm = 9 / 10, row_other_norm = 9 / 10\<rparr>]"

subsection \<open>Reassembly of triplet results (\<open>evaluate_dataloader\<close>, lines 159 to 170)\<close>

text \<open>\<open>torch.cat\<close> and \<open>torch.concat\<close> along the rows; an empty list of tensors is refused.\<close>

definition torch_concat :: "'a list list \<Rightarrow> error + 'a list" where
  "torch_concat ts = (if ts = [] then Inl EmptyConcat else Inr (concat ts))"

text \<open>The slice \<open>xs[::10]\<close>: the first row and every tenth row after it.\<close>

fun every_tenth :: "'a list \<Rightarrow> 'a list" where
  "every_tenth [] = []"
| "every_tenth (x # xs) = x # every_tenth (drop 9 xs)"

text \<open>
  Lines 164 to 169. The slice \<open>negative_mat[10 * i : 10 * (i + 1)]\<close> is cut at the end of the
  tensor, as Python slices are.
\<close>

definition reshape_triplets :: "score_matrix \<Rightarrow> error + score_matrix" where
  "reshape_triplets result_mat =
     (let positive_mat = every_tenth (filter (\<lambda>r. row_label r = 1) result_mat);
          negative_mat = filter (\<lambda>r. row_label r = 0) result_mat;
          real_mat =
            concat (map (\<lambda>i. [[positive_mat ! i], take 10 (drop (10 * i) negative_mat)])
                        [0..<length positive_mat])
      in torch_concat real_mat)"

text \<open>
  Rows of a batch of triplets: the positive pair of a sample, and one of its negative pairs.
\<close>

definition positive_row :: "rat \<Rightarrow> score_row" where
  "positive_row d = \<lparr>row_label = 1, row_dist = d, row_anchor_norm = 2, row_other_norm = 1\<rparr>"

definition negative_row :: "rat \<Rightarrow> score_row" where
  "negative_row d = \<lparr>row_label = 0, row_dist = d, row_anchor_norm = 2, row_other_norm = 3\<rparr>"

text \<open>
  A batch of two samples with three negatives each: six triplets, so six positive rows
  followed by six negative rows.
\<close>

definition three_negatives_batch :: score_matrix where
  "three_negatives_batch =
     replicate 3 (positive_row 1) @ replicate 3 (positive_row 2) @
     map negative_row [11, 12, 13] @ map negative_row [21, 22, 23]"

text \<open>A batch of one sample with ten negatives, and its single group.\<close>

definition ten_negatives_batch :: score_matrix where
  "ten_negatives_batch =
     replicate 10 (positive_row 1) @ map negative_row [11, 12, 13, 14, 15, 16, 17, 18, 19, 20]"

definition ten_negatives_groups :: "(score_row \<times> score_row list) list" where
  "ten_negatives_groups =
     [(positive_row 1, map negative_row [11, 12, 13, 14, 15, 16, 17, 18, 19, 20])]"

text \<open>
  A well-formed matrix of triplet results: each group is a positive row and its ten
  negative rows; the positive row is repeated once per triplet.
\<close>

definition well_formed_triplets :: "(score_row \<times> score_row list) list \<Rightarrow> score_matrix \<Rightarrow> bool" where
  "well_formed_triplets groups mat =
     (groups \<noteq> [] \<and> list_all (\<lambda>g. length (snd g) = 10) groups \<and>
      filter (\<lambda>r. row_label r = 1) mat = concat (map (\<lambda>g. replicate 10 (fst g)) groups) \<and>
      filter (\<lambda>r. row_label r = 0) mat = concat (map snd groups))"

section \<open>The reconstruction evaluator (\<open>hypertrans/eval/reconstruct.py\<close>)\<close>

type_synonym vec = "real list"

text \<open>
  The hierarchy graph (\<open>HypernymGraph\<close>, not among the sources) is used through its
  \<open>entities\<close> and its \<open>get_hypernyms\<close>, which returns a set, here a list without
  repetitions.
\<close>

record 'e hypernym_graph =
  entities :: "'e list"
  get_hypernyms :: "'e \<Rightarrow> 'e list"

subsection \<open>Distances of the embedding table\<close>

definition vsub :: "vec \<Rightarrow> vec \<Rightarrow> vec" where
  "vsub u v = map2 (-) u v"

definition dot :: "vec \<Rightarrow> vec \<Rightarrow> real" where
  "dot u v = sum_list (map2 (*) u v)"

definition norm2 :: "vec \<Rightarrow> real" where
  "norm2 u = sqrt (dot u u)"

text \<open>
  \<open>PoincareKeyedVectors.vector_distance_batch\<close> of the embedding library, for one other
  vector: \<open>arccosh(1 + 2 * (euclidean_dist ** 2 / ((1 - norm ** 2) * (1 - other_norm ** 2))))\<close>.
\<close>

definition poincare_distance :: "vec \<Rightarrow> vec \<Rightarrow> real" where
  "poincare_distance u v =
     arcosh (1 + 2 * ((norm2 (vsub u v))\<^sup>2 / ((1 - (norm2 u)\<^sup>2) * (1 - (norm2 v)\<^sup>2))))"

text \<open>
  \<open>embedding_dict.distances(node, other_nodes)\<close> of the keyed vectors: a missing key
  raises, and an empty collection of other nodes stands for all the vectors of the table.
\<close>

definition kv_distances :: "('e \<times> vec) list \<Rightarrow> 'e \<Rightarrow> 'e list \<Rightarrow> error + real list" where
  "kv_distances embedding_dict node other_nodes =
     (case map_of embedding_dict node of
        None \<Rightarrow> Inl KeyError
      | Some input_vector \<Rightarrow>
          if other_nodes = []
          then Inr (map (poincare_distance input_vector) (map snd embedding_dict))
          else (case those (map (map_of embedding_dict) other_nodes) of
                  None \<Rightarrow> Inl KeyError
                | Some other_vectors \<Rightarrow> Inr (map (poincare_distance input_vector) other_vectors)))"

subsection \<open>Ranks and average precision\<close>

text \<open>
  \<open>get_hypernym_ranks\<close>: the dictionary from hypernym to rank, as an association list in
  the order of the hypernyms.
\<close>

definition get_hypernym_ranks ::
  "'e hypernym_graph \<Rightarrow> ('e \<times> vec) list \<Rightarrow> 'e \<Rightarrow> error + ('e \<times> nat) list" where
  "get_hypernym_ranks graph embedding_dict entity_name =
     (let hypernyms = get_hypernyms graph entity_name
      in if hypernyms = [] then Inr []
         else
           (case kv_distances embedding_dict entity_name hypernyms of
              Inl e \<Rightarrow> Inl e
            | Inr distances_to_hypernyms \<Rightarrow>
                (let rest = filter (\<lambda>e. e \<notin> set hypernyms) (remdups (entities graph))
                 in case kv_distances embedding_dict entity_name rest of
                      Inl e \<Rightarrow> Inl e
                    | Inr distances_to_rest \<Rightarrow>
                        Inr (map (\<lambda>(h, dh). (h, length (filter (\<lambda>d. d < dh) distances_to_rest) + 1))
                               (zip hypernyms distances_to_hypernyms)))))"

text \<open>\<open>np.mean\<close>: the mean of no numbers is NaN, written \<open>None\<close>.\<close>

definition np_mean :: "real list \<Rightarrow> real option" where
  "np_mean xs = (if xs = [] then None else Some (sum_list xs / real (length xs)))"

text \<open>
  \<open>get_hypernym_average_precision\<close> with \<open>return_ranks=True\<close>: \<open>Inr None\<close> is Python's
  \<open>None\<close>. The ranks are at least 1, and the list of precisions is not empty.
\<close>

definition get_hypernym_average_precision ::
  "'e hypernym_graph \<Rightarrow> ('e \<times> vec) list \<Rightarrow> 'e \<Rightarrow> error + (real \<times> nat list) option" where
  "get_hypernym_average_precision graph embedding_dict entity_name =
     (case get_hypernym_ranks graph embedding_dict entity_name of
        Inl e \<Rightarrow> Inl e
      | Inr rank_dict \<Rightarrow>
          if rank_dict = [] then Inr None
          else
            (let ranks = map snd rank_dict;
                 map_ranks = map2 (+) (sort ranks) [0..<length ranks];
                 precisions =
                   map2 (\<lambda>k r. real k / real r) [1..<length map_ranks + 1] (sort map_ranks)
             in Inr (Some (sum_list precisions / real (length precisions), ranks))))"

text \<open>
  \<open>evaluate_hypernym_mean_rank_and_AP\<close> without \<open>max_eval_nums\<close>: the loop over the entities
  collects the ranks and the average precisions, and the result holds their means.
\<close>

fun collect_ranks_and_aps ::
  "'e hypernym_graph \<Rightarrow> ('e \<times> vec) list \<Rightarrow> 'e list \<Rightarrow> nat list \<times> real list \<Rightarrow>
     error + (nat list \<times> real list)" where
  "collect_ranks_and_aps graph embedding_dict [] acc = Inr acc"
| "collect_ranks_and_aps graph embedding_dict (ent # ents) (all_ranks, all_aps) =
     (case get_hypernym_average_precision graph embedding_dict ent of
        Inl e \<Rightarrow> Inl e
      | Inr None \<Rightarrow> collect_ranks_and_aps graph embedding_dict ents (all_ranks, all_aps)
      | Inr (Some (ap, ranks)) \<Rightarrow>
          collect_ranks_and_aps graph embedding_dict ents (all_ranks @ ranks, all_aps @ [ap]))"

record mean_rank_and_AP =
  mean_rank :: "real option"
  MAP :: "real option"

definition evaluate_hypernym_mean_rank_and_AP ::
  "'e hypernym_graph \<Rightarrow> ('e \<times> vec) list \<Rightarrow> error + mean_rank_and_AP" where
  "evaluate_hypernym_mean_rank_and_AP graph embedding_dict =
     (case collect_ranks_and_aps graph embedding_dict (entities graph) ([], []) of
        Inl e \<Rightarrow> Inl e
      | Inr (all_ranks, all_aps) \<Rightarrow>
          Inr \<lparr>mean_rank = np_mean (map real all_ranks), MAP = np_mean all_aps\<rparr>)"

subsection \<open>The chain of three entities\<close>

text \<open>
  The chain \<open>a \<rightarrow> b \<rightarrow> c\<close>: \<open>b\<close> is the single hypernym of \<open>a\<close>, \<open>c\<close> the single hypernym of
  \<open>b\<close>, and \<open>c\<close> is the root. The embeddings lie on one ray, with norms 0.9, 0.5 and 0.1.
\<close>

definition chain_graph :: "string hypernym_graph" where
  "chain_graph =
     \<lparr>entities = [''a'', ''b'', ''c''],
      get_hypernyms = (\<lambda>e. if e = ''a'' then [''b''] else if e = ''b'' then [''c''] else [])\<rparr>"

definition chain_embeddings :: "(string \<times> vec) list" where
  "chain_embeddings = [(''a'', [9 / 10]), (''b'', [1 / 2]), (''c'', [1 / 10])]"

section \<open>The hyperbolic loss (\<open>holm/loss.py\<close>)\<close>

subsection \<open>Tensor elements\<close>

text \<open>
  An element of a floating-point tensor is a real number, an infinity or NaN. The
  operations treat the special values as IEEE 754 does. Rounding is not modelled, and zero has
  no sign: a non-zero number divided by zero is the infinity with the sign of the number.
\<close>

datatype tval = Fin real | PInf | NInf | NaN

fun tneg :: "tval \<Rightarrow> tval" where
  "tneg (Fin x) = Fin (- x)"
| "tneg PInf = NInf"
| "tneg NInf = PInf"
| "tneg NaN = NaN"

fun tadd :: "tval \<Rightarrow> tval \<Rightarrow> tval" where
  "tadd NaN y = NaN"
| "tadd x NaN = NaN"
| "tadd (Fin x) (Fin y) = Fin (x + y)"
| "tadd PInf NInf = NaN"
| "tadd NInf PInf = NaN"
| "tadd PInf y = PInf"
| "tadd x PInf = PInf"
| "tadd NInf y = NInf"
| "tadd x NInf = NInf"

definition tsub :: "tval \<Rightarrow> tval \<Rightarrow> tval" where
  "tsub x y = tadd x (tneg y)"

fun tmul :: "tval \<Rightarrow> tval \<Rightarrow> tval" where
  "tmul NaN y = NaN"
| "tmul x NaN = NaN"
| "tmul (Fin x) (Fin y) = Fin (x * y)"
| "tmul (Fin x) PInf = (if x = 0 then NaN else if 0 < x then PInf else NInf)"
| "tmul (Fin x) NInf = (if x = 0 then NaN else if 0 < x then NInf else PInf)"
| "tmul PInf (Fin y) = (if y = 0 then NaN else if 0 < y then PInf else NInf)"
| "tmul NInf (Fin y) = (if y = 0 then NaN else if 0 < y then NInf else PInf)"
| "tmul PInf PInf = PInf"
| "tmul PInf NInf = NInf"
| "tmul NInf PInf = NInf"
| "tmul NInf NInf = PInf"

fun tdiv :: "tval \<Rightarrow> tval \<Rightarrow> tval" where
  "tdiv NaN y = NaN"
| "tdiv x NaN = NaN"
| "tdiv (Fin x) (Fin y) =
     (if y = 0 then (if x = 0 then NaN else if 0 < x then PInf else NInf) else Fin (x / y))"
| "tdiv (Fin x) PInf = Fin 0"
| "tdiv (Fin x) NInf = Fin 0"
| "tdiv PInf (Fin y) = (if 0 \<le> y then PInf else NInf)"
| "tdiv NInf (Fin y) = (if 0 \<le> y then NInf else PInf)"
| "tdiv PInf PInf = NaN"
| "tdiv PInf NInf = NaN"
| "tdiv NInf PInf = NaN"
| "tdiv NInf NInf = NaN"

text \<open>\<open>x.pow(2)\<close> and \<open>x ** 2\<close>.\<close>

definition tsquare :: "tval \<Rightarrow> tval" where
  "tsquare x = tmul x x"

text \<open>\<open>F.relu\<close> keeps NaN.\<close>

fun trelu :: "tval \<Rightarrow> tval" where
  "trelu (Fin x) = Fin (max 0 x)"
| "trelu PInf = PInf"
| "trelu NInf = Fin 0"
| "trelu NaN = NaN"

fun tsqrt :: "tval \<Rightarrow> tval" where
  "tsqrt (Fin x) = (if x < 0 then NaN else Fin (sqrt x))"
| "tsqrt PInf = PInf"
| "tsqrt NInf = NaN"
| "tsqrt NaN = NaN"

text \<open>\<open>torch.arccos\<close> and \<open>torch.arcsin\<close> are NaN outside \<open>[-1, 1]\<close>.\<close>

fun tarccos :: "tval \<Rightarrow> tval" where
  "tarccos (Fin x) = (if - 1 \<le> x \<and> x \<le> 1 then Fin (arccos x) else NaN)"
| "tarccos x = NaN"

fun tarcsin :: "tval \<Rightarrow> tval" where
  "tarcsin (Fin x) = (if - 1 \<le> x \<and> x \<le> 1 then Fin (arcsin x) else NaN)"
| "tarcsin x = NaN"

text \<open>\<open>x.clamp(min=m)\<close>.\<close>

fun tclamp_min :: "real \<Rightarrow> tval \<Rightarrow> tval" where
  "tclamp_min m (Fin x) = Fin (max x m)"
| "tclamp_min m PInf = PInf"
| "tclamp_min m NInf = Fin m"
| "tclamp_min m NaN = NaN"

text \<open>\<open>sum()\<close> of no elements is 0; \<open>mean()\<close> divides the sum by the number of elements.\<close>

definition tsum :: "tval list \<Rightarrow> tval" where
  "tsum xs = foldl tadd (Fin 0) xs"

definition tmean :: "tval list \<Rightarrow> tval" where
  "tmean xs = tdiv (tsum xs) (Fin (real (length xs)))"

subsection \<open>Shapes and broadcasting\<close>

text \<open>
  A batch of embeddings is a list of rows. Two sizes along one axis can be broadcast when they
  are equal or one of them is 1; a binary tensor operation on other sizes raises.
\<close>

definition compatible :: "nat \<Rightarrow> nat \<Rightarrow> bool" where
  "compatible a b = (a = b \<or> a = 1 \<or> b = 1)"

definition bmap2 :: "('a \<Rightarrow> 'b \<Rightarrow> 'c) \<Rightarrow> 'a list \<Rightarrow> 'b list \<Rightarrow> 'c list" where
  "bmap2 f xs ys =
     (if length xs = length ys then map2 f xs ys
      else if length xs = 1 then map (f (hd xs)) ys
      else map (\<lambda>x. f x (hd ys)) xs)"

definition broadcast :: "('a \<Rightarrow> 'b \<Rightarrow> 'c) \<Rightarrow> 'a list \<Rightarrow> 'b list \<Rightarrow> error + 'c list" where
  "broadcast f xs ys =
     (if compatible (length xs) (length ys) then Inr (bmap2 f xs ys) else Inl ShapeError)"

definition bind_err :: "error + 'a \<Rightarrow> ('a \<Rightarrow> error + 'b) \<Rightarrow> error + 'b" where
  "bind_err r f = (case r of Inl e \<Rightarrow> Inl e | Inr x \<Rightarrow> f x)"

fun sequence_err :: "(error + 'a) list \<Rightarrow> error + 'a list" where
  "sequence_err [] = Inr []"
| "sequence_err (r # rs) =
     bind_err r (\<lambda>x. bind_err (sequence_err rs) (\<lambda>xs. Inr (x # xs)))"

text \<open>
  An operation on the rows of two batches, reduced along the last axis: the batch axis and the
  embedding axis must both be compatible.
\<close>

definition rows_op :: "(vec \<Rightarrow> vec \<Rightarrow> 'c) \<Rightarrow> vec list \<Rightarrow> vec list \<Rightarrow> error + 'c list" where
  "rows_op f A B =
     bind_err
       (broadcast
          (\<lambda>u v. if compatible (length u) (length v) then Inr (f u v) else Inl ShapeError) A B)
       sequence_err"

subsection \<open>Cone geometry\<close>

text \<open>\<open>self.min_norm = 0.1\<close>.\<close>

definition min_norm :: real where
  "min_norm = 1 / 10"

text \<open>\<open>half_cone_aperture\<close> for one cone tip.\<close>

definition half_cone_aperture :: "vec \<Rightarrow> tval" where
  "half_cone_aperture cone_tip =
     (let norm_tip = tclamp_min min_norm (Fin (norm2 cone_tip))
      in tarcsin (tdiv (tmul (Fin min_norm) (tsub (Fin 1) (tsquare norm_tip))) norm_tip))"

text \<open>
  \<open>cone_angle_at_u\<close> for one cone tip and one point \<open>u\<close> (lines 67 to 73). The quotient goes
  to \<open>torch.arccos\<close> as it is.
\<close>

definition cone_angle_at_u :: "vec \<Rightarrow> vec \<Rightarrow> tval" where
  "cone_angle_at_u cone_tip u =
     (let norm_tip = Fin (norm2 cone_tip);
          norm_child = Fin (norm2 u);
          dot_prod = Fin (sum_list (bmap2 (*) cone_tip u));
          edist = Fin (norm2 (bmap2 (-) cone_tip u));
          numerator =
            tsub (tmul dot_prod (tadd (Fin 1) (tsquare norm_tip)))
                 (tmul (tsquare norm_tip) (tadd (Fin 1) (tsquare norm_child)));
          denomenator =
            tmul (tmul norm_tip edist)
                 (tsqrt (tsub (tadd (Fin 1) (tmul (tsquare norm_child) (tsquare norm_tip)))
                              (tmul (Fin 2) dot_prod)))
      in tarccos (tdiv numerator denomenator))"

text \<open>\<open>energy\<close> on batches: \<open>F.relu(cone_angle_at_u(cone_tip, u) - half_cone_aperture(cone_tip))\<close>.\<close>

definition energy :: "vec list \<Rightarrow> vec list \<Rightarrow> error + tval list" where
  "energy cone_tip u =
     bind_err (rows_op cone_angle_at_u cone_tip u) (\<lambda>angles.
     bind_err (broadcast tsub angles (map half_cone_aperture cone_tip)) (\<lambda>diff.
     Inr (map trelu diff)))"

subsection \<open>\<open>HyperbolicLoss.forward\<close>\<close>

text \<open>
  The manifold of the geometry library is used through its distance, applied to two rows
  whose sizes have been found compatible, and through its origin, a tensor of zeros.
\<close>

record manifold =
  mdist :: "vec \<Rightarrow> vec \<Rightarrow> tval"

definition origin :: "vec \<Rightarrow> vec" where
  "origin x = replicate (length x) 0"

text \<open>The dictionary \<open>loss_weights\<close>, with the keys \<open>cluster\<close>, \<open>centri\<close> and \<open>cone\<close>.\<close>

record loss_weights =
  w_cluster :: real
  w_centri :: real
  w_cone :: real

text \<open>\<open>labels.float()\<close>.\<close>

definition float_of :: "int list \<Rightarrow> tval list" where
  "float_of labels = map (\<lambda>l. Fin (of_int l)) labels"

text \<open>
  The clustering term (lines 89 to 94):
  \<open>0.5 * (labels * distances ** 2 + (1 - labels) * relu(5.0 - distances) ** 2)\<close>, averaged.
\<close>

definition cluster_loss :: "tval list \<Rightarrow> int list \<Rightarrow> error + tval" where
  "cluster_loss distances labels =
     bind_err (broadcast tmul (float_of labels) (map tsquare distances)) (\<lambda>pos.
     bind_err (broadcast tmul (float_of (map (\<lambda>l. 1 - l) labels))
                 (map (\<lambda>d. tsquare (trelu (tsub (Fin 5) d))) distances)) (\<lambda>neg.
     bind_err (broadcast tadd pos neg) (\<lambda>both.
     Inr (tmean (map (tmul (Fin (1 / 2))) both)))))"

text \<open>
  The centripetal term (lines 97 to 105):
  \<open>labels * relu(0.5 + other_norms - anchor_norms)\<close>, summed and divided by the sum of the
  labels.
\<close>

definition centri_loss :: "tval list \<Rightarrow> tval list \<Rightarrow> int list \<Rightarrow> error + tval" where
  "centri_loss rep_anchor_hyper_norms rep_other_hyper_norms labels =
     bind_err (broadcast tsub (map (tadd (Fin (1 / 2))) rep_other_hyper_norms)
                 rep_anchor_hyper_norms) (\<lambda>diff.
     bind_err (broadcast tmul (float_of labels) (map trelu diff)) (\<lambda>terms.
     Inr (tdiv (tsum terms) (tsum (float_of labels)))))"

text \<open>
  The entailment-cone term (lines 108 to 110):
  \<open>labels * energies ** 2 + (1 - labels) * relu(0.1 - energies) ** 2\<close>, averaged.
\<close>

definition cone_loss :: "tval list \<Rightarrow> int list \<Rightarrow> error + tval" where
  "cone_loss energies labels =
     bind_err (broadcast tmul (float_of labels) (map tsquare energies)) (\<lambda>pos.
     bind_err (broadcast tmul (float_of (map (\<lambda>l. 1 - l) labels))
                 (map (\<lambda>e. tsquare (trelu (tsub (Fin (1 / 10)) e))) energies)) (\<lambda>neg.
     bind_err (broadcast tadd pos neg) (\<lambda>both.
     Inr (tmean both))))"

text \<open>
  \<open>forward\<close>, on the embeddings that the encoder returns for the sentence features. The
  labels are used as numbers; nothing inspects their values.
\<close>

definition forward :: "manifold \<Rightarrow> loss_weights \<Rightarrow> vec list list \<Rightarrow> int list \<Rightarrow> error + tval" where
  "forward m lw reps labels =
     (case reps of
        [rep_anchor, rep_other] \<Rightarrow>
          bind_err (rows_op (mdist m) rep_anchor rep_other) (\<lambda>distances.
          bind_err (cluster_loss distances labels) (\<lambda>cluster.
          bind_err (centri_loss (map (\<lambda>x. mdist m x (origin x)) rep_anchor)
                      (map (\<lambda>x. mdist m x (origin x)) rep_other) labels) (\<lambda>centri.
          bind_err (energy rep_other rep_anchor) (\<lambda>energies.
          bind_err (cone_loss energies labels) (\<lambda>cone.
          Inr (tadd (tadd (tmul (Fin (w_cluster lw)) cluster) (tmul (Fin (w_centri lw)) centri))
                    (tmul (Fin (w_cone lw)) cone)))))))
      | _ \<Rightarrow> Inl AssertionError)"

text \<open>A batch is rejected when \<open>forward\<close> raises.\<close>

definition rejected :: "error + tval \<Rightarrow> bool" where
  "rejected r = (case r of Inl e \<Rightarrow> True | Inr v \<Rightarrow> False)"

text \<open>
  A batch of \<open>n\<close> pairs of embeddings of dimension \<open>d\<close> with \<open>n\<close> labels.
\<close>

definition well_shaped :: "nat \<Rightarrow> vec list \<Rightarrow> vec list \<Rightarrow> int list \<Rightarrow> bool" where
  "well_shaped d rep_anchor rep_other labels =
     (length rep_other = length rep_anchor \<and> length labels = length rep_anchor \<and>
      list_all (\<lambda>x. length x = d) rep_anchor \<and> list_all (\<lambda>x. length x = d) rep_other)"

text \<open>
  The unit Poincare ball, with the distance in its closed form, and the default weights of
  the loss.
\<close>

definition unit_ball :: manifold where
  "unit_ball = \<lparr>mdist = (\<lambda>u v. Fin (poincare_distance u v))\<rparr>"

definition default_weights :: loss_weights where
  "default_weights = \<lparr>w_cluster = 1, w_centri = 1, w_cone = 1\<rparr>"

text \<open>The size of the result of broadcasting two compatible sizes.\<close>

definition blen :: "nat \<Rightarrow> nat \<Rightarrow> nat" where
  "blen a b = (if a = b then a else if a = 1 then b else a)"

text \<open>
  The shapes that the tensor library broadcasts in \<open>forward\<close>: the two batch sizes are
  compatible, the rows that are paired have compatible dimensions, and the number of labels is
  compatible with the size of the broadcast batch. The values of the labels play no part. A
  batch without rows has no dimension in this model.
\<close>

definition shapes_broadcast :: "vec list \<Rightarrow> vec list \<Rightarrow> int list \<Rightarrow> bool" where
  "shapes_broadcast rep_anchor rep_other labels =
     (compatible (length rep_anchor) (length rep_other) \<and>
      list_all (\<lambda>p. compatible (length (fst p)) (length (snd p)))
        (bmap2 Pair rep_anchor rep_other) \<and>
      compatible (length labels) (length (bmap2 Pair rep_anchor rep_other)))"

section \<open>Floating-point rounding\<close>

text \<open>
  The tensors of the program hold floating-point numbers, and every tensor operation rounds
  its result to the format of the tensor. The definitions of this section are the operations
  with the rounding written out, for a rounding function that is a parameter; the definitions
  above are their instances for exact arithmetic, in which nothing is rounded.
\<close>

subsection \<open>Rounding to a binary format\<close>

definition pow2 :: "int \<Rightarrow> 'a::field" where
  "pow2 e = (if 0 \<le> e then 2 ^ nat e else 1 / 2 ^ nat (- e))"

text \<open>Rounding to the nearest integer, a tie going to the even one.\<close>

definition round_half_even :: "'a::floor_ceiling \<Rightarrow> int" where
  "round_half_even y =
     (let f = \<lfloor>y\<rfloor>; d = y - of_int f
      in if d < 1 / 2 then f else if 1 / 2 < d then f + 1 else if even f then f else f + 1)"

text \<open>
  The exponent of the binade of \<open>x\<close> in a format whose exponents go from \<open>emin\<close> to \<open>emax\<close>:
  the least \<open>e\<close> from \<open>emin\<close> on with \<open>|x| < 2 ^ (e + 1)\<close>, and \<open>emax\<close> when there is none.
  Numbers below \<open>2 ^ emin\<close> are subnormal and share the exponent \<open>emin\<close>.
\<close>

definition binade :: "int \<Rightarrow> int \<Rightarrow> 'a::floor_ceiling \<Rightarrow> int" where
  "binade emin emax x =
     (case find (\<lambda>e. \<bar>x\<bar> < pow2 (e + 1)) [emin..emax] of Some e \<Rightarrow> e | None \<Rightarrow> emax)"

text \<open>
  The number that \<open>x\<close> rounds to with \<open>p\<close> significant bits, ties to even. This is the value
  of \<open>x\<close> in the format as long as the result is below \<open>2 ^ (emax + 1)\<close>.
\<close>

definition float_round :: "nat \<Rightarrow> int \<Rightarrow> int \<Rightarrow> 'a::floor_ceiling \<Rightarrow> 'a" where
  "float_round p emin emax x =
     (let ulp = pow2 (binade emin emax x - int p + 1)
      in of_int (round_half_even (x / ulp)) * ulp)"

text \<open>
  binary32, the default type of a tensor, and binary64, the type of Python's \<open>float\<close>.
\<close>

definition float32_round :: "'a::floor_ceiling \<Rightarrow> 'a" where
  "float32_round = float_round 24 (- 126) 127"

definition float64_round :: "'a::floor_ceiling \<Rightarrow> 'a" where
  "float64_round = float_round 53 (- 1022) 1023"

text \<open>Rounding a real result to a tensor element of binary32: large results overflow.\<close>

definition float32 :: "real \<Rightarrow> tval" where
  "float32 x =
     (let y = float32_round x
      in if pow2 128 \<le> y then PInf else if y \<le> - pow2 128 then NInf else Fin y)"

subsection \<open>Composite scores of a floating-point score matrix\<close>

text \<open>\<open>torch.tensor(rows)\<close>: every entry is rounded to the format of the tensor.\<close>

definition to_tensor :: "(rat \<Rightarrow> rat) \<Rightarrow> score_matrix \<Rightarrow> score_matrix" where
  "to_tensor rnd mat =
     map (\<lambda>r. \<lparr>row_label = rnd (row_label r), row_dist = rnd (row_dist r),
               row_anchor_norm = rnd (row_anchor_norm r),
               row_other_norm = rnd (row_other_norm r)\<rparr>) mat"

text \<open>
  Lines 53 and 69 on a floating-point tensor: the subtraction, the multiplication by the
  weight, which is converted to the format first, and the addition each round their result.
  The entries and the results are finite numbers.
\<close>

definition composite_scores_rounded :: "(rat \<Rightarrow> rat) \<Rightarrow> score_matrix \<Rightarrow> rat \<Rightarrow> rat list" where
  "composite_scores_rounded rnd mat w =
     map2 (\<lambda>d x. rnd (d + x)) (column row_dist mat)
       (map (\<lambda>x. rnd (rnd w * x))
          (map2 (\<lambda>y z. rnd (y - z)) (column row_other_norm mat) (column row_anchor_norm mat)))"

subsection \<open>The evaluator on floating-point tensors\<close>

text \<open>
  \<open>evaluate\<close> with its arithmetic rounded: \<open>rnd\<close> rounds to the type of the score matrix,
  and \<open>rnd_py\<close> to Python's \<open>float\<close>. A rounding function takes 0 to 0, so with granularity 0
  both bounds of the range are 0, as in exact arithmetic. The product
  \<open>scores.min() * granuality\<close> is a tensor operation, and \<open>threshold / granuality\<close> a division
  of Python integers.
\<close>

definition threshold_range_rounded ::
  "(rat \<Rightarrow> rat) \<Rightarrow> (rat \<Rightarrow> rat) \<Rightarrow> rat list \<Rightarrow> int \<Rightarrow> error + rat list" where
  "threshold_range_rounded rnd rnd_py scores g =
     (case tensor_min scores of Inl e \<Rightarrow> Inl e | Inr mn \<Rightarrow>
      (case tensor_max scores of Inl e \<Rightarrow> Inl e | Inr mx \<Rightarrow>
        (let start = py_int (rnd (mn * rnd (of_int g)));
             end = py_int (rnd (mx * rnd (of_int g)))
         in Inr (map (\<lambda>k. rnd_py (of_int k / of_int g)) [start..end - 1]))))"

fun weight_loop_rounded ::
  "(rat \<Rightarrow> rat) \<Rightarrow> (rat \<Rightarrow> rat) \<Rightarrow> threshold_eval \<Rightarrow> score_matrix \<Rightarrow> int \<Rightarrow> nat list \<Rightarrow>
     search_state \<Rightarrow> error + search_state" where
  "weight_loop_rounded rnd rnd_py te mat g [] st = Inr st"
| "weight_loop_rounded rnd rnd_py te mat g (i # rest) st =
     (if \<not> is_updated st then Inr st
      else
        (let w = of_nat (i + 1);
             scores = composite_scores_rounded rnd mat w
         in case threshold_range_rounded rnd rnd_py scores g of
              Inl e \<Rightarrow> Inl e
            | Inr ts \<Rightarrow>
                weight_loop_rounded rnd rnd_py te mat g rest
                  (fold (\<lambda>t s. threshold_step te scores (column row_label mat) w s t) ts
                     (st\<lparr>is_updated := False\<rparr>))))"

definition apply_mode_rounded ::
  "(rat \<Rightarrow> rat) \<Rightarrow> threshold_eval \<Rightarrow> score_matrix \<Rightarrow> rat \<Rightarrow> rat \<Rightarrow> results" where
  "apply_mode_rounded rnd te mat w t =
     \<lparr>centri_score_weight = w,
      scores_of = te (composite_scores_rounded rnd mat w) (column row_label mat) t\<rparr>"

definition search_mode_rounded ::
  "(rat \<Rightarrow> rat) \<Rightarrow> (rat \<Rightarrow> rat) \<Rightarrow> threshold_eval \<Rightarrow> score_matrix \<Rightarrow> int \<Rightarrow>
     error + results option" where
  "search_mode_rounded rnd rnd_py te mat g =
     (case weight_loop_rounded rnd rnd_py te mat g [0..<10]
             \<lparr>best_f1 = - 1, best_results = None, is_updated = True\<rparr> of
        Inl e \<Rightarrow> Inl e
      | Inr st \<Rightarrow> Inr (best_results st))"

definition evaluate_rounded ::
  "(rat \<Rightarrow> rat) \<Rightarrow> (rat \<Rightarrow> rat) \<Rightarrow> threshold_eval \<Rightarrow> score_matrix \<Rightarrow> int \<Rightarrow>
     rat option \<Rightarrow> rat option \<Rightarrow> error + results option" where
  "evaluate_rounded rnd rnd_py te mat g best_val_centri_score_weight best_val_threshold =
     (if truthy best_val_threshold \<and> truthy best_val_centri_score_weight
      then (case (best_val_centri_score_weight, best_val_threshold) of
              (Some w, Some t) \<Rightarrow> Inr (Some (apply_mode_rounded rnd te mat w t))
            | _ \<Rightarrow> search_mode_rounded rnd rnd_py te mat g)
      else search_mode_rounded rnd rnd_py te mat g)"

text \<open>
  What holds of the best result throughout the search: it was computed by
  \<open>threshold_evaluate\<close> from the composite scores of one of the ten weights.
\<close>

definition from_scores ::
  "(rat \<Rightarrow> rat) \<Rightarrow> threshold_eval \<Rightarrow> score_matrix \<Rightarrow> search_state \<Rightarrow> bool" where
  "from_scores rnd te mat st =
     (\<forall>res. best_results st = Some res \<longrightarrow>
        (\<exists>i<10. \<exists>t. res = \<lparr>centri_score_weight = of_nat (i + 1),
           scores_of = te (composite_scores_rounded rnd mat (of_nat (i + 1)))
                          (map row_label mat) t\<rparr>))"

subsection \<open>The cone angle on floating-point tensors\<close>

text \<open>An operation that rounds: the special values stay as they are.\<close>

definition rounded :: "(real \<Rightarrow> tval) \<Rightarrow> tval \<Rightarrow> tval" where
  "rounded rnd v = (case v of Fin x \<Rightarrow> rnd x | PInf \<Rightarrow> PInf | NInf \<Rightarrow> NInf | NaN \<Rightarrow> NaN)"

definition radd :: "(real \<Rightarrow> tval) \<Rightarrow> tval \<Rightarrow> tval \<Rightarrow> tval" where
  "radd rnd x y = rounded rnd (tadd x y)"

definition rsub :: "(real \<Rightarrow> tval) \<Rightarrow> tval \<Rightarrow> tval \<Rightarrow> tval" where
  "rsub rnd x y = rounded rnd (tsub x y)"

definition rmul :: "(real \<Rightarrow> tval) \<Rightarrow> tval \<Rightarrow> tval \<Rightarrow> tval" where
  "rmul rnd x y = rounded rnd (tmul x y)"

definition rdiv :: "(real \<Rightarrow> tval) \<Rightarrow> tval \<Rightarrow> tval \<Rightarrow> tval" where
  "rdiv rnd x y = rounded rnd (tdiv x y)"

definition rsqrt :: "(real \<Rightarrow> tval) \<Rightarrow> tval \<Rightarrow> tval" where
  "rsqrt rnd x = rounded rnd (tsqrt x)"

text \<open>\<open>sum(dim=-1)\<close>, accumulated from the left, and \<open>norm(dim=-1)\<close>.\<close>

definition rsum :: "(real \<Rightarrow> tval) \<Rightarrow> tval list \<Rightarrow> tval" where
  "rsum rnd xs = foldl (radd rnd) (Fin 0) xs"

definition rnorm :: "(real \<Rightarrow> tval) \<Rightarrow> tval list \<Rightarrow> tval" where
  "rnorm rnd xs = rsqrt rnd (rsum rnd (map (\<lambda>x. rmul rnd x x) xs))"

text \<open>
  The argument that \<open>cone_angle_at_u\<close> hands to \<open>torch.arccos\<close> (lines 67 to 72), every
  operation rounding its result.
\<close>

definition cone_quotient :: "(real \<Rightarrow> tval) \<Rightarrow> vec \<Rightarrow> vec \<Rightarrow> tval" where
  "cone_quotient rnd cone_tip u =
     (let norm_tip = rnorm rnd (map Fin cone_tip);
          norm_child = rnorm rnd (map Fin u);
          dot_prod = rsum rnd (bmap2 (rmul rnd) (map Fin cone_tip) (map Fin u));
          edist = rnorm rnd (bmap2 (rsub rnd) (map Fin cone_tip) (map Fin u));
          numerator =
            rsub rnd (rmul rnd dot_prod (radd rnd (Fin 1) (rmul rnd norm_tip norm_tip)))
                     (rmul rnd (rmul rnd norm_tip norm_tip)
                        (radd rnd (Fin 1) (rmul rnd norm_child norm_child)));
          denomenator =
            rmul rnd (rmul rnd norm_tip edist)
              (rsqrt rnd
                 (rsub rnd
                    (radd rnd (Fin 1)
                       (rmul rnd (rmul rnd norm_child norm_child) (rmul rnd norm_tip norm_tip)))
                    (rmul rnd (Fin 2) dot_prod)))
      in rdiv rnd numerator denomenator)"

text \<open>
  Line 73: \<open>torch.arccos\<close> of the quotient as it is. The rounding of the value of \<open>arccos\<close>
  is left out: it has no part in whether the angle is a number.
\<close>

definition cone_angle_rounded :: "(real \<Rightarrow> tval) \<Rightarrow> vec \<Rightarrow> vec \<Rightarrow> tval" where
  "cone_angle_rounded rnd cone_tip u = tarccos (cone_quotient rnd cone_tip u)"

text \<open>
  The cone angle as the specification words it: the quotient is clamped into \<open>[-1, 1]\<close>
  before \<open>arccos\<close>. \<open>torch.clamp\<close> keeps NaN.
\<close>

fun tclamp :: "real \<Rightarrow> real \<Rightarrow> tval \<Rightarrow> tval" where
  "tclamp lo hi (Fin x) = Fin (min (max x lo) hi)"
| "tclamp lo hi PInf = Fin hi"
| "tclamp lo hi NInf = Fin lo"
| "tclamp lo hi NaN = NaN"

definition cone_angle_clamped :: "(real \<Rightarrow> tval) \<Rightarrow> vec \<Rightarrow> vec \<Rightarrow> tval" where
  "cone_angle_clamped rnd cone_tip u = tarccos (tclamp (- 1) 1 (cone_quotient rnd cone_tip u))"

text \<open>The binary32 number nearest to 0.9.\<close>

definition nine_tenths :: real where
  "nine_tenths = 7549747 / 8388608"

section \<open>Properties of the threshold evaluator\<close>

subsection \<open>Composite scores\<close>

lemma length_composite_scores: "length (composite_scores mat w) = length mat"
  by (simp add: composite_scores_def column_def tensor_add_def tensor_sub_def scalar_mul_def)

lemma nth_composite_scores:
  "i < length mat \<Longrightarrow>
   composite_scores mat w ! i =
     row_dist (mat ! i) + w * (row_other_norm (mat ! i) - row_anchor_norm (mat ! i))"
  by (simp add: composite_scores_def column_def tensor_add_def tensor_sub_def scalar_mul_def)

subsection \<open>The best F1 of a list of candidates\<close>

lemma f1_max_Nil [simp]: "f1_max [] b = b"
  by (simp add: f1_max_def)

lemma f1_max_Cons:
  "f1_max (r # cs) b = f1_max cs (case f1_of r of None \<Rightarrow> b | Some f \<Rightarrow> max b f)"
  by (simp add: f1_max_def)

lemma f1_max_append: "f1_max (xs @ ys) b = f1_max ys (f1_max xs b)"
  by (simp add: f1_max_def)

lemma f1_max_ge: "b \<le> f1_max cs b"
  unfolding f1_max_def
  by (induction cs arbitrary: b) (auto split: option.splits intro: order_trans[OF max.cobounded1])

lemma f1_max_upper: "r \<in> set cs \<Longrightarrow> f1_of r = Some f \<Longrightarrow> f \<le> f1_max cs b"
proof (induction cs arbitrary: b)
  case Nil
  then show ?case by simp
next
  case (Cons a cs)
  show ?case
  proof (cases "r = a")
    case True
    have "f \<le> max b f" by simp
    also have "\<dots> \<le> f1_max cs (max b f)" by (rule f1_max_ge)
    finally show ?thesis using True Cons.prems by (simp add: f1_max_Cons)
  next
    case False
    then have "r \<in> set cs" using Cons.prems by simp
    then show ?thesis using Cons.IH Cons.prems by (simp add: f1_max_Cons)
  qed
qed

lemma f1_max_none: "\<not> list_ex (\<lambda>r. beats (f1_of r) b) cs \<Longrightarrow> f1_max cs b = b"
  by (induction cs) (auto simp: f1_max_Cons beats_def list_ex_iff split: option.splits)

lemma f1_max_some: "list_ex (\<lambda>r. beats (f1_of r) b) cs \<Longrightarrow> b < f1_max cs b"
proof (induction cs arbitrary: b)
  case Nil
  then show ?case by simp
next
  case (Cons a cs)
  show ?case
  proof (cases "beats (f1_of a) b")
    case True
    then obtain f where f: "f1_of a = Some f" "b < f"
      by (auto simp: beats_def split: option.splits)
    have "b < max b f" using f by simp
    also have "\<dots> \<le> f1_max cs (max b f)" by (rule f1_max_ge)
    finally show ?thesis using f by (simp add: f1_max_Cons)
  next
    case False
    then have eq: "(case f1_of a of None \<Rightarrow> b | Some f \<Rightarrow> max b f) = b"
      by (auto simp: beats_def split: option.splits)
    from False Cons.prems have "list_ex (\<lambda>r. beats (f1_of r) b) cs" by simp
    then show ?thesis using Cons.IH eq by (simp add: f1_max_Cons)
  qed
qed

lemma f1_max_attained:
  "list_ex (\<lambda>r. beats (f1_of r) b) cs \<Longrightarrow> \<exists>r\<in>set cs. f1_of r = Some (f1_max cs b)"
proof (induction cs arbitrary: b)
  case Nil
  then show ?case by simp
next
  case (Cons a cs)
  let ?b = "(case f1_of a of None \<Rightarrow> b | Some f \<Rightarrow> max b f)"
  show ?case
  proof (cases "list_ex (\<lambda>r. beats (f1_of r) ?b) cs")
    case True
    then show ?thesis using Cons.IH[of ?b] by (auto simp: f1_max_Cons)
  next
    case False
    then have eq: "f1_max cs ?b = ?b" by (rule f1_max_none)
    have "beats (f1_of a) b"
    proof (rule ccontr)
      assume n: "\<not> beats (f1_of a) b"
      then have "?b = b" by (auto simp: beats_def split: option.splits)
      then show False using False Cons.prems n by simp
    qed
    then have "f1_of a = Some ?b" by (auto simp: beats_def max_def split: option.splits)
    then show ?thesis using eq by (simp add: f1_max_Cons)
  qed
qed

lemma find_append:
  "find Q (xs @ ys) = (case find Q xs of None \<Rightarrow> find Q ys | Some x \<Rightarrow> Some x)"
  by (induction xs) simp_all

lemma best_seen_append: "best_seen (P @ C) = f1_max C (best_seen P)"
  by (simp add: best_seen_def f1_max_append)

lemma first_best_append:
  "first_best (P @ C) =
     (if list_ex (\<lambda>r. beats (f1_of r) (best_seen P)) C
      then find (\<lambda>r. f1_of r = Some (f1_max C (best_seen P))) C
      else first_best P)"
proof (cases "list_ex (\<lambda>r. beats (f1_of r) (best_seen P)) C")
  case True
  have ge: "- 1 \<le> best_seen P" unfolding best_seen_def by (rule f1_max_ge)
  have lt: "best_seen P < f1_max C (best_seen P)" using True by (rule f1_max_some)
  have ex: "list_ex (\<lambda>r. beats (f1_of r) (- 1)) (P @ C)"
    using True ge by (auto simp: list_ex_iff beats_def split: option.splits)
  have "find (\<lambda>r. f1_of r = Some (f1_max C (best_seen P))) P = None"
  proof -
    have "f1_of r \<noteq> Some (f1_max C (best_seen P))" if "r \<in> set P" for r
    proof
      assume "f1_of r = Some (f1_max C (best_seen P))"
      then have "f1_max C (best_seen P) \<le> best_seen P"
        unfolding best_seen_def[of P] using that by (rule f1_max_upper[rotated])
      then show False using lt by simp
    qed
    then show ?thesis by (simp add: find_None_iff)
  qed
  then show ?thesis using True ex by (simp add: first_best_def best_seen_append find_append)
next
  case False
  then have mx: "f1_max C (best_seen P) = best_seen P" by (rule f1_max_none)
  show ?thesis
  proof (cases "list_ex (\<lambda>r. beats (f1_of r) (- 1)) P")
    case True
    then obtain r where "r \<in> set P" "f1_of r = Some (best_seen P)"
      unfolding best_seen_def using f1_max_attained by blast
    then have "find (\<lambda>r. f1_of r = Some (best_seen P)) P \<noteq> None"
      by (auto simp: find_None_iff)
    then show ?thesis using True False mx
      by (auto simp: first_best_def best_seen_append find_append split: option.splits)
  next
    case F2: False
    then have "best_seen P = - 1" unfolding best_seen_def by (rule f1_max_none)
    then show ?thesis using F2 False by (simp add: first_best_def)
  qed
qed

subsection \<open>The inner loop as a fold over candidates\<close>

lemma fold_candidate_step_best_f1:
  "best_f1 (fold (\<lambda>r s. candidate_step s r) cs s) = f1_max cs (best_f1 s)"
  by (induction cs arbitrary: s) (auto simp: candidate_step_def f1_max_Cons split: option.splits)

lemma fold_candidate_step_updated:
  "is_updated (fold (\<lambda>r s. candidate_step s r) cs s) =
     (is_updated s \<or> list_ex (\<lambda>r. beats (f1_of r) (best_f1 s)) cs)"
proof (induction cs arbitrary: s)
  case Nil
  then show ?case by simp
next
  case (Cons a cs)
  show ?case
  proof (cases "beats (f1_of a) (best_f1 s)")
    case True
    then show ?thesis
      using Cons.IH by (auto simp: candidate_step_def beats_def split: option.splits)
  next
    case False
    then have "candidate_step s a = s"
      by (auto simp: candidate_step_def beats_def split: option.splits)
    then show ?thesis using Cons.IH False by simp
  qed
qed

lemma fold_candidate_step_results:
  "best_results (fold (\<lambda>r s. candidate_step s r) cs s) =
     (if list_ex (\<lambda>r. beats (f1_of r) (best_f1 s)) cs
      then find (\<lambda>r. f1_of r = Some (f1_max cs (best_f1 s))) cs
      else best_results s)"
proof (induction cs arbitrary: s)
  case Nil
  then show ?case by simp
next
  case (Cons a cs)
  show ?case
  proof (cases "beats (f1_of a) (best_f1 s)")
    case True
    then obtain f where f: "f1_of a = Some f" "best_f1 s < f"
      by (auto simp: beats_def split: option.splits)
    let ?s = "\<lparr>best_f1 = f, best_results = Some a, is_updated = True\<rparr>"
    have st: "candidate_step s a = ?s" using f by (simp add: candidate_step_def)
    have mx: "f1_max (a # cs) (best_f1 s) = f1_max cs f"
      using f by (simp add: f1_max_Cons max_def)
    show ?thesis
    proof (cases "list_ex (\<lambda>r. beats (f1_of r) f) cs")
      case True
      then have "f < f1_max cs f" by (rule f1_max_some)
      then show ?thesis using Cons.IH[of ?s] st mx True f by (simp add: beats_def)
    next
      case False
      then have "f1_max cs f = f" by (rule f1_max_none)
      then show ?thesis using Cons.IH[of ?s] st mx False f by (simp add: beats_def)
    qed
  next
    case False
    then have st: "candidate_step s a = s"
      by (auto simp: candidate_step_def beats_def split: option.splits)
    have mx: "f1_max (a # cs) (best_f1 s) = f1_max cs (best_f1 s)"
      using False by (auto simp: f1_max_Cons beats_def split: option.splits)
    show ?thesis
    proof (cases "list_ex (\<lambda>r. beats (f1_of r) (best_f1 s)) cs")
      case True
      then have "best_f1 s < f1_max cs (best_f1 s)" by (rule f1_max_some)
      then have "f1_of a \<noteq> Some (f1_max cs (best_f1 s))"
        using False by (auto simp: beats_def split: option.splits)
      then show ?thesis using Cons.IH[of s] st mx True by simp
    next
      case F2: False
      then show ?thesis using Cons.IH[of s] st mx False by simp
    qed
  qed
qed

lemma scan_summary:
  assumes "best_f1 st = best_seen P" "best_results st = first_best P"
  shows "best_f1 (fold (\<lambda>r s. candidate_step s r) C (st\<lparr>is_updated := False\<rparr>)) =
           best_seen (P @ C)"
    and "best_results (fold (\<lambda>r s. candidate_step s r) C (st\<lparr>is_updated := False\<rparr>)) =
           first_best (P @ C)"
    and "is_updated (fold (\<lambda>r s. candidate_step s r) C (st\<lparr>is_updated := False\<rparr>)) =
           list_ex (\<lambda>r. beats (f1_of r) (best_seen P)) C"
  using assms
  by (simp_all add: fold_candidate_step_best_f1 fold_candidate_step_results
        fold_candidate_step_updated best_seen_append first_best_append)

subsection \<open>The outer loop\<close>

lemma threshold_range_nonempty:
  "scores \<noteq> [] \<Longrightarrow> \<exists>ts. threshold_range scores g = Inr ts"
  by (cases scores) (simp_all add: threshold_range_def tensor_min_def tensor_max_def)

lemma threshold_range_empty: "threshold_range [] g = Inl EmptyReduction"
  by (simp add: threshold_range_def tensor_min_def)

lemma weight_loop_stop: "\<not> is_updated st \<Longrightarrow> weight_loop te mat g ws st = Inr st"
  by (cases ws) simp_all

lemma threshold_step_candidate:
  "threshold_step te (composite_scores mat w) (column row_label mat) w s t =
     candidate_step s (candidate te mat (w, t))"
  by (simp add: threshold_step_def candidate_step_def candidate_def f1_of_def Let_def)

lemma weight_loop_Cons:
  assumes "mat \<noteq> []" "is_updated st"
  shows "weight_loop te mat g (i # rest) st =
           weight_loop te mat g rest
             (fold (\<lambda>r s. candidate_step s r) (candidates te mat g i)
                (st\<lparr>is_updated := False\<rparr>))"
proof -
  have "composite_scores mat (of_nat (i + 1)) \<noteq> []"
    using assms(1) length_composite_scores[of mat "of_nat (i + 1)"] by auto
  then obtain ts where ts: "threshold_range (composite_scores mat (of_nat (i + 1))) g = Inr ts"
    using threshold_range_nonempty by blast
  show ?thesis
    using assms(2) ts
    by (simp add: candidates_def grid_def Let_def fold_map comp_def threshold_step_candidate
          del: of_nat_add of_nat_Suc)
qed

lemma candidates_upto_Suc:
  "candidates_upto te mat g (Suc n) = candidates_upto te mat g n @ candidates te mat g n"
  by (simp add: candidates_upto_def candidates_def grid_upto_def)

lemma weight_loop_search:
  assumes "mat \<noteq> []"
  shows "a \<le> b \<Longrightarrow> is_updated st \<Longrightarrow>
     best_f1 st = best_seen (candidates_upto te mat g a) \<Longrightarrow>
     best_results st = first_best (candidates_upto te mat g a) \<Longrightarrow>
     \<exists>st'. weight_loop te mat g [a..<b] st = Inr st' \<and>
       best_results st' =
         first_best (candidates_upto te mat g
           (case find (no_improvement te mat g) [a..<b] of None \<Rightarrow> b | Some i \<Rightarrow> i + 1))"
proof (induction "b - a" arbitrary: a st)
  case 0
  then show ?case by simp
next
  case (Suc n)
  then have lt: "a < b" by simp
  let ?st1 = "fold (\<lambda>r s. candidate_step s r) (candidates te mat g a)
                (st\<lparr>is_updated := False\<rparr>)"
  have loop: "weight_loop te mat g [a..<b] st = weight_loop te mat g [Suc a..<b] ?st1"
    using lt weight_loop_Cons[OF assms Suc.prems(2)] by (simp add: upt_rec[of a b])
  note sm = scan_summary[OF Suc.prems(3) Suc.prems(4), of "candidates te mat g a"]
  have bf: "best_f1 ?st1 = best_seen (candidates_upto te mat g (Suc a))"
    and br: "best_results ?st1 = first_best (candidates_upto te mat g (Suc a))"
    and up: "is_updated ?st1 = (\<not> no_improvement te mat g a)"
    using sm by (simp_all add: candidates_upto_Suc no_improvement_def)
  show ?case
  proof (cases "no_improvement te mat g a")
    case True
    then have "weight_loop te mat g [Suc a..<b] ?st1 = Inr ?st1"
      using up weight_loop_stop by simp
    then show ?thesis using loop br True lt by (simp add: upt_rec[of a b])
  next
    case False
    have "n = b - Suc a" using Suc.hyps(2) by simp
    moreover have "Suc a \<le> b" using lt by simp
    moreover have "is_updated ?st1" using up False by simp
    ultimately obtain st' where
      "weight_loop te mat g [Suc a..<b] ?st1 = Inr st'"
      "best_results st' = first_best (candidates_upto te mat g
           (case find (no_improvement te mat g) [Suc a..<b] of None \<Rightarrow> b | Some i \<Rightarrow> i + 1))"
      using Suc.hyps(1)[of "Suc a" ?st1] bf br by blast
    then show ?thesis using loop False lt by (simp add: upt_rec[of a b])
  qed
qed

lemma search_mode_characterised:
  assumes "mat \<noteq> []"
  shows "search_mode te mat g =
           Inr (first_best (candidates_upto te mat g (weights_scanned te mat g)))"
proof -
  let ?init = "\<lparr>best_f1 = - 1, best_results = None, is_updated = True\<rparr>"
  have "\<exists>st'. weight_loop te mat g [0..<10] ?init = Inr st' \<and>
       best_results st' =
         first_best (candidates_upto te mat g
           (case find (no_improvement te mat g) [0..<10] of None \<Rightarrow> 10 | Some i \<Rightarrow> i + 1))"
    by (rule weight_loop_search[OF assms])
       (simp_all add: candidates_upto_def grid_upto_def best_seen_def first_best_def)
  then show ?thesis by (auto simp: search_mode_def weights_scanned_def)
qed

lemma search_mode_empty: "search_mode te [] g = Inl EmptyReduction"
proof -
  have "composite_scores [] w = []" for w
    using length_composite_scores[of "[]" w] by simp
  then show ?thesis
    by (simp add: search_mode_def upt_rec[of 0 10] threshold_range_empty del: of_nat_add of_nat_Suc)
qed

lemma evaluate_falsy:
  "\<not> (truthy t \<and> truthy w) \<Longrightarrow> evaluate te mat g w t = search_mode te mat g"
  by (auto simp: evaluate_def)

lemma evaluate_truthy:
  "w \<noteq> 0 \<Longrightarrow> t \<noteq> 0 \<Longrightarrow> evaluate te mat g (Some w) (Some t) = Inr (Some (apply_mode te mat w t))"
  by (simp add: evaluate_def truthy_def)

subsection \<open>Scan order of the grid\<close>

lemma threshold_range_sorted:
  assumes "threshold_range scores g = Inr ts" "0 < g"
  shows "sorted_wrt (<) ts"
proof -
  obtain a b where ts: "ts = map (\<lambda>k. of_int k / of_int g) [a..b]"
    using assms(1)
    by (auto simp: threshold_range_def Let_def split: sum.splits)
  have "sorted_wrt (\<lambda>x y. (of_int x :: rat) / of_int g < of_int y / of_int g) [a..b]"
    by (rule sorted_wrt_mono_rel[OF _ sorted_wrt_upto]) (use assms(2) in \<open>simp add: divide_strict_right_mono\<close>)
  then show ?thesis by (simp add: ts sorted_wrt_map)
qed

lemma grid_sorted: "0 < g \<Longrightarrow> sorted_wrt scan_before (grid mat g i)"
proof -
  assume g: "0 < g"
  show ?thesis
  proof (cases "threshold_range (composite_scores mat (of_nat (i + 1))) g")
    case (Inl e)
    then show ?thesis by (simp add: grid_def Let_def del: of_nat_add of_nat_Suc)
  next
    case (Inr ts)
    then have "sorted_wrt (<) ts" using g by (rule threshold_range_sorted)
    then show ?thesis
      using Inr by (simp add: grid_def Let_def sorted_wrt_map scan_before_def del: of_nat_add of_nat_Suc)
  qed
qed

lemma grid_weight: "p \<in> set (grid mat g i) \<Longrightarrow> fst p = of_nat (i + 1)"
  by (auto simp: grid_def Let_def simp del: of_nat_add of_nat_Suc split: sum.splits)

lemma grid_upto_weight: "p \<in> set (grid_upto mat g n) \<Longrightarrow> \<exists>i<n. fst p = of_nat (i + 1)"
  using grid_weight by (fastforce simp: grid_upto_def)

lemma grid_upto_sorted: "0 < g \<Longrightarrow> sorted_wrt scan_before (grid_upto mat g n)"
proof (induction n)
  case 0
  then show ?case by (simp add: grid_upto_def)
next
  case (Suc n)
  have "scan_before p q" if "p \<in> set (grid_upto mat g n)" "q \<in> set (grid mat g n)" for p q
  proof -
    from grid_upto_weight[OF that(1)]
    obtain i where "i < n" "fst p = of_nat (i + 1)" by auto
    moreover have "fst q = of_nat (n + 1)" using that(2) by (rule grid_weight)
    ultimately show ?thesis by (simp add: scan_before_def)
  qed
  then show ?case
    using Suc grid_sorted[of g mat n] by (simp add: grid_upto_def sorted_wrt_append)
qed

subsection \<open>The threshold range\<close>

lemma tensor_min_Min: "scores \<noteq> [] \<Longrightarrow> tensor_min scores = Inr (Min (set scores))"
proof (cases scores)
  case Nil
  assume "scores \<noteq> []"
  then show ?thesis using Nil by simp
next
  case (Cons a list)
  show ?thesis using Min.set_eq_fold[of a list] by (simp add: Cons tensor_min_def)
qed

lemma tensor_max_Max: "scores \<noteq> [] \<Longrightarrow> tensor_max scores = Inr (Max (set scores))"
proof (cases scores)
  case Nil
  assume "scores \<noteq> []"
  then show ?thesis using Nil by simp
next
  case (Cons a list)
  show ?thesis using Max.set_eq_fold[of a list] by (simp add: Cons tensor_max_def)
qed

lemma py_int_le: "x \<le> of_int k \<Longrightarrow> py_int x \<le> k"
  by (auto simp: py_int_def floor_le_iff ceiling_le_iff)

lemma py_int_gt: "of_int k + 1 \<le> x \<Longrightarrow> k < py_int x"
proof -
  assume a: "of_int k + 1 \<le> x"
  then have "of_int (k + 1) \<le> x" by simp
  then have 1: "k + 1 \<le> \<lfloor>x\<rfloor>" by (simp only: le_floor_iff)
  have 2: "\<lfloor>x\<rfloor> \<le> \<lceil>x\<rceil>" by (rule floor_le_ceiling)
  have "k < \<lfloor>x\<rfloor>" using 1 by arith
  moreover have "k < \<lceil>x\<rceil>" using 1 2 by arith
  ultimately show ?thesis by (simp add: py_int_def)
qed

lemma py_int_le_D: "py_int x \<le> k \<Longrightarrow> x - 1 < of_int k"
proof -
  assume a: "py_int x \<le> k"
  have 1: "x - 1 < of_int \<lfloor>x\<rfloor>" by linarith
  have 2: "\<lfloor>x\<rfloor> \<le> \<lceil>x\<rceil>" by (rule floor_le_ceiling)
  have "\<lfloor>x\<rfloor> \<le> py_int x" using 2 by (simp add: py_int_def)
  then have "\<lfloor>x\<rfloor> \<le> k" using a by arith
  then have "(of_int \<lfloor>x\<rfloor> :: rat) \<le> of_int k" by simp
  then show ?thesis using 1 by arith
qed

lemma py_int_gt_D: "k < py_int x \<Longrightarrow> of_int k < x"
proof -
  assume a: "k < py_int x"
  show ?thesis
  proof (cases "0 \<le> x")
    case True
    then have "k < \<lfloor>x\<rfloor>" using a by (simp add: py_int_def)
    then show ?thesis by linarith
  next
    case False
    then have "k < \<lceil>x\<rceil>" using a by (simp add: py_int_def)
    then show ?thesis by linarith
  qed
qed

lemma tried_iff:
  assumes "scores \<noteq> []"
  shows "tried scores g t \<longleftrightarrow>
     (\<exists>k. t = of_int k / of_int g \<and> py_int (Min (set scores) * of_int g) \<le> k \<and>
          k < py_int (Max (set scores) * of_int g))"
proof -
  have "threshold_range scores g =
      Inr (map (\<lambda>k. of_int k / of_int g)
             [py_int (Min (set scores) * of_int g)..py_int (Max (set scores) * of_int g) - 1])"
    using assms by (simp add: threshold_range_def tensor_min_Min tensor_max_Max Let_def)
  then have "tried scores g t \<longleftrightarrow>
      t \<in> (\<lambda>k. of_int k / of_int g) `
            {py_int (Min (set scores) * of_int g)..py_int (Max (set scores) * of_int g) - 1}"
    by (simp add: tried_def)
  also have "\<dots> \<longleftrightarrow> (\<exists>k. t = of_int k / of_int g \<and> py_int (Min (set scores) * of_int g) \<le> k \<and>
          k < py_int (Max (set scores) * of_int g))"
    by (auto simp: image_iff)
  finally show ?thesis .
qed

section \<open>Properties of the reassembly of triplet results\<close>

lemma every_tenth_replicate: "every_tenth (replicate 10 p @ xs) = p # every_tenth xs"
proof -
  have "replicate 10 p = p # replicate 9 p" by (simp add: numeral_eq_Suc)
  then show ?thesis by simp
qed

lemma every_tenth_groups:
  "every_tenth (concat (map (\<lambda>g. replicate 10 (fst g)) groups)) = map fst groups"
  by (induction groups) (simp_all add: every_tenth_replicate)

lemma negatives_of_group:
  "list_all (\<lambda>g. length (snd g) = 10) groups \<Longrightarrow> i < length groups \<Longrightarrow>
   take 10 (drop (10 * i) (concat (map snd groups))) = snd (groups ! i)"
proof (induction groups arbitrary: i)
  case Nil
  then show ?case by simp
next
  case (Cons g groups)
  show ?case
  proof (cases i)
    case 0
    then show ?thesis using Cons.prems by simp
  next
    case (Suc j)
    have "10 * i - length (snd g) = 10 * j" using Suc Cons.prems by simp
    moreover have "drop (10 * i) (snd g) = []" using Suc Cons.prems by simp
    ultimately show ?thesis using Cons.IH[of j] Cons.prems Suc by simp
  qed
qed

lemma reshape_triplets_formula:
  "reshape_triplets mat =
     (if list_ex (\<lambda>r. row_label r = 1) mat
      then Inr (concat (map (\<lambda>i. every_tenth (filter (\<lambda>r. row_label r = 1) mat) ! i #
                                take 10 (drop (10 * i) (filter (\<lambda>r. row_label r = 0) mat)))
                         [0..<length (every_tenth (filter (\<lambda>r. row_label r = 1) mat))]))
      else Inl EmptyConcat)"
proof -
  let ?pos = "every_tenth (filter (\<lambda>r. row_label r = 1) mat)"
  let ?neg = "filter (\<lambda>r. row_label r = 0) mat"
  have cc: "concat (concat (map (\<lambda>i. [[?pos ! i], take 10 (drop (10 * i) ?neg)]) ns)) =
        concat (map (\<lambda>i. ?pos ! i # take 10 (drop (10 * i) ?neg)) ns)" for ns
    by (induction ns) simp_all
  have em: "(concat (map (\<lambda>i. [[?pos ! i], take 10 (drop (10 * i) ?neg)]) [0..<length ?pos]) = []) =
        (?pos = [])"
    by (cases ?pos) (simp_all add: upt_rec)
  have pe: "(?pos = []) = (\<not> list_ex (\<lambda>r. row_label r = 1) mat)"
  proof (cases "filter (\<lambda>r. row_label r = 1) mat")
    case Nil
    then show ?thesis by (simp add: list_ex_iff filter_empty_conv)
  next
    case (Cons a as)
    then have "list_ex (\<lambda>r. row_label r = 1) mat"
      by (metis filter_empty_conv list.distinct(1) list_ex_iff)
    then show ?thesis using Cons by simp
  qed
  show ?thesis
    unfolding reshape_triplets_def Let_def torch_concat_def em pe cc by simp
qed

lemma reshape_well_formed:
  assumes "well_formed_triplets groups mat"
  shows "reshape_triplets mat = Inr (concat (map (\<lambda>g. fst g # snd g) groups))"
proof -
  have ne: "groups \<noteq> []" and len: "list_all (\<lambda>g. length (snd g) = 10) groups"
    and pos: "filter (\<lambda>r. row_label r = 1) mat = concat (map (\<lambda>g. replicate 10 (fst g)) groups)"
    and neg: "filter (\<lambda>r. row_label r = 0) mat = concat (map snd groups)"
    using assms by (simp_all add: well_formed_triplets_def)
  have et: "every_tenth (filter (\<lambda>r. row_label r = 1) mat) = map fst groups"
    by (simp add: pos every_tenth_groups)
  have "filter (\<lambda>r. row_label r = 1) mat \<noteq> []"
    using ne pos by (cases groups) (simp_all add: numeral_eq_Suc)
  then have ex: "list_ex (\<lambda>r. row_label r = 1) mat"
    by (simp add: list_ex_iff filter_empty_conv)
  have "map (\<lambda>i. map fst groups ! i # take 10 (drop (10 * i) (concat (map snd groups))))
          [0..<length groups] =
        map (\<lambda>i. (\<lambda>g. fst g # snd g) (groups ! i)) [0..<length groups]"
    using negatives_of_group[OF len] by simp
  also have "\<dots> = map (\<lambda>g. fst g # snd g) groups"
    by (rule nth_equalityI) simp_all
  finally show ?thesis
    using ex by (simp add: reshape_triplets_formula et neg)
qed

text \<open>
  C7. Claimed: a batch whose number of negative rows per positive row is not the expected one
  is rejected with a count-mismatch error. No count is checked: with three negatives per
  positive and two samples, the reassembly returns the first positive row followed by all six
  negative rows; the second positive row is lost and its negatives follow the first.
\<close>

theorem three_negatives_not_rejected:
  "reshape_triplets three_negatives_batch =
     Inr (positive_row 1 # map negative_row [11, 12, 13, 21, 22, 23])"
  by code_simp

text \<open>
  C7, as the code has it. The reassembly keeps every tenth positive row and puts after the
  \<open>i\<close>-th of them the negative rows \<open>10 * i\<close> to \<open>10 * i + 9\<close>, as many as there are. It fails
  only when the matrix has no positive row, at the concatenation of an empty list. When each
  positive row is repeated ten times and has ten negative rows, the result is each positive
  row followed by its ten negatives.
\<close>

theorem reshape_triplets_no_count_check:
  "(list_ex (\<lambda>r. row_label r = 1) mat \<longrightarrow>
      reshape_triplets mat =
        Inr (concat (map (\<lambda>i. every_tenth (filter (\<lambda>r. row_label r = 1) mat) ! i #
                               take 10 (drop (10 * i) (filter (\<lambda>r. row_label r = 0) mat)))
                        [0..<length (every_tenth (filter (\<lambda>r. row_label r = 1) mat))]))) \<and>
   (\<not> list_ex (\<lambda>r. row_label r = 1) mat \<longrightarrow> reshape_triplets mat = Inl EmptyConcat) \<and>
   (well_formed_triplets groups mat \<longrightarrow>
      reshape_triplets mat = Inr (concat (map (\<lambda>g. fst g # snd g) groups)))"
  using reshape_triplets_formula[of mat] reshape_well_formed[of groups mat] by simp

theorem reshape_triplets_no_count_check_witness:
  "well_formed_triplets ten_negatives_groups ten_negatives_batch \<and>
   list_ex (\<lambda>r. row_label r = 1) ten_negatives_batch \<and>
   \<not> list_ex (\<lambda>r. row_label r = 1) (map negative_row [11, 12]) \<and>
   reshape_triplets (map negative_row [11, 12]) = Inl EmptyConcat \<and>
   reshape_triplets ten_negatives_batch =
     Inr (positive_row 1 # map negative_row [11, 12, 13, 14, 15, 16, 17, 18, 19, 20])"
proof -
  have h1: "well_formed_triplets ten_negatives_groups ten_negatives_batch" by code_simp
  have h2: "list_ex (\<lambda>r. row_label r = 1) ten_negatives_batch" by code_simp
  have h3: "\<not> list_ex (\<lambda>r. row_label r = 1) (map negative_row [11, 12])"
    by (simp add: negative_row_def)
  have v: "concat (map (\<lambda>g. fst g # snd g) ten_negatives_groups) =
      positive_row 1 # map negative_row [11, 12, 13, 14, 15, 16, 17, 18, 19, 20]"
    by (simp add: ten_negatives_groups_def)
  have a: "reshape_triplets ten_negatives_batch =
      Inr (concat (map (\<lambda>g. fst g # snd g) ten_negatives_groups))"
    using reshape_triplets_no_count_check[of ten_negatives_batch ten_negatives_groups] h1
    by blast
  have b: "reshape_triplets (map negative_row [11, 12]) = Inl EmptyConcat"
    using reshape_triplets_no_count_check[of "map negative_row [11, 12]" ten_negatives_groups] h3
    by blast
  show ?thesis using h1 h2 h3 a b v by simp
qed

section \<open>Properties of the reconstruction evaluator\<close>

lemma pd_aa: "poincare_distance [9/10] [9/10] = 0"
  by (simp add: poincare_distance_def vsub_def dot_def norm2_def)

lemma pd_ab: "poincare_distance [9/10] [1/2] = arcosh (185/57)"
  by (simp add: poincare_distance_def vsub_def dot_def norm2_def power2_eq_square)

lemma pd_ac: "poincare_distance [9/10] [1/10] = arcosh (14681/1881)"
  by (simp add: poincare_distance_def vsub_def dot_def norm2_def power2_eq_square)

lemma pd_bb: "poincare_distance [1/2] [1/2] = 0"
  by (simp add: poincare_distance_def vsub_def dot_def norm2_def)

lemma pd_ba: "poincare_distance [1/2] [9/10] = arcosh (185/57)"
  by (simp add: poincare_distance_def vsub_def dot_def norm2_def power2_eq_square)

lemma pd_bc: "poincare_distance [1/2] [1/10] = arcosh (425/297)"
  by (simp add: poincare_distance_def vsub_def dot_def norm2_def power2_eq_square)

lemma ranks_a: "get_hypernym_ranks chain_graph chain_embeddings ''a'' = Inr [(''b'', 2)]"
  by (simp add: get_hypernym_ranks_def chain_graph_def chain_embeddings_def kv_distances_def
        pd_aa pd_ab pd_ac)

lemma ranks_b: "get_hypernym_ranks chain_graph chain_embeddings ''b'' = Inr [(''c'', 2)]"
  by (simp add: get_hypernym_ranks_def chain_graph_def chain_embeddings_def kv_distances_def
        pd_bb pd_ba pd_bc)

lemma ranks_c: "get_hypernym_ranks chain_graph chain_embeddings ''c'' = Inr []"
  by (simp add: get_hypernym_ranks_def chain_graph_def)

lemma ap_a: "get_hypernym_average_precision chain_graph chain_embeddings ''a'' = Inr (Some (1 / 2, [2]))"
  by (simp add: get_hypernym_average_precision_def ranks_a)

lemma ap_b: "get_hypernym_average_precision chain_graph chain_embeddings ''b'' = Inr (Some (1 / 2, [2]))"
  by (simp add: get_hypernym_average_precision_def ranks_b)

lemma ap_c: "get_hypernym_average_precision chain_graph chain_embeddings ''c'' = Inr None"
  by (simp add: get_hypernym_average_precision_def ranks_c)

text \<open>
  C2. Claimed: on the chain, \<open>get_hypernym_ranks(a)\<close> is \<open>{b: 1}\<close> and the mean average
  precision is 1.0. The entities that are not hypernyms include the entity itself, at
  distance 0, so it is counted as closer than the hypernym: the rank of \<open>b\<close> is 2, the average
  precision of \<open>a\<close> is 1/2, and the mean average precision of the chain is 1/2.
\<close>

theorem chain_rank_counts_entity_itself:
  "get_hypernym_ranks chain_graph chain_embeddings ''a'' = Inr [(''b'', 2)] \<and>
   get_hypernym_average_precision chain_graph chain_embeddings ''a'' = Inr (Some (1 / 2, [2])) \<and>
   evaluate_hypernym_mean_rank_and_AP chain_graph chain_embeddings =
     Inr \<lparr>mean_rank = Some 2, MAP = Some (1 / 2)\<rparr>"
proof -
  have "entities chain_graph = [''a'', ''b'', ''c'']" by (simp add: chain_graph_def)
  then have "evaluate_hypernym_mean_rank_and_AP chain_graph chain_embeddings =
     Inr \<lparr>mean_rank = Some 2, MAP = Some (1 / 2)\<rparr>"
    by (simp add: evaluate_hypernym_mean_rank_and_AP_def ap_a ap_b ap_c np_mean_def)
  then show ?thesis using ranks_a ap_a by simp
qed

section \<open>Properties of the hyperbolic loss\<close>

subsection \<open>NaN in tensor arithmetic\<close>

lemma tadd_NaN_right [simp]: "tadd x NaN = NaN"
  by (cases x) simp_all

lemma tmul_NaN_right [simp]: "tmul x NaN = NaN"
  by (cases x) simp_all

lemma tmul_zero_cases: "tmul (Fin 0) r = Fin 0 \<or> tmul (Fin 0) r = NaN"
  by (cases r) simp_all

lemma foldl_tadd_zero_or_NaN:
  "acc = Fin 0 \<or> acc = NaN \<Longrightarrow> list_all (\<lambda>x. x = Fin 0 \<or> x = NaN) xs \<Longrightarrow>
   foldl tadd acc xs = Fin 0 \<or> foldl tadd acc xs = NaN"
proof (induction xs arbitrary: acc)
  case Nil
  then show ?case by simp
next
  case (Cons x xs)
  have "tadd acc x = Fin 0 \<or> tadd acc x = NaN"
    using Cons.prems by auto
  then show ?case using Cons.IH[of "tadd acc x"] Cons.prems by simp
qed

lemma tsum_zero_or_NaN:
  "list_all (\<lambda>x. x = Fin 0 \<or> x = NaN) xs \<Longrightarrow> tsum xs = Fin 0 \<or> tsum xs = NaN"
  unfolding tsum_def by (rule foldl_tadd_zero_or_NaN) simp

lemma tsum_zeros: "tsum (replicate n (Fin 0)) = Fin 0"
  unfolding tsum_def by (induction n) simp_all

lemma float_of_zeros:
  "list_all (\<lambda>l. l = 0) labels \<Longrightarrow> float_of labels = replicate (length labels) (Fin 0)"
  by (induction labels) (simp_all add: float_of_def)

subsection \<open>Batches of one shape\<close>

lemma bmap2_same: "length xs = length ys \<Longrightarrow> bmap2 f xs ys = map2 f xs ys"
  by (simp add: bmap2_def)

lemma broadcast_same: "length xs = length ys \<Longrightarrow> broadcast f xs ys = Inr (map2 f xs ys)"
  by (simp add: broadcast_def compatible_def bmap2_def)

lemma broadcast_incompatible:
  "\<not> compatible (length xs) (length ys) \<Longrightarrow> broadcast f xs ys = Inl ShapeError"
  by (simp add: broadcast_def)

lemma sequence_err_Inr: "sequence_err (map Inr xs) = Inr xs"
  by (induction xs) (simp_all add: bind_err_def)

lemma rows_op_same:
  assumes "length A = length B" "list_all (\<lambda>x. length x = d) A" "list_all (\<lambda>x. length x = d) B"
  shows "rows_op f A B = Inr (map2 f A B)"
proof -
  let ?g = "\<lambda>u v. if compatible (length u) (length v) then Inr (f u v) else Inl ShapeError"
  have eq: "map2 ?g A B = map Inr (map2 f A B)"
    using assms
  proof (induction A B rule: list_induct2)
    case Nil
    then show ?case by simp
  next
    case (Cons x xs y ys)
    then show ?case by (simp add: compatible_def)
  qed
  have "rows_op f A B = sequence_err (map2 ?g A B)"
    using assms(1) by (simp add: rows_op_def broadcast_same bind_err_def)
  also have "\<dots> = sequence_err (map Inr (map2 f A B))" by (simp only: eq)
  also have "\<dots> = Inr (map2 f A B)" by (rule sequence_err_Inr)
  finally show ?thesis .
qed

lemma rows_op_incompatible:
  "\<not> compatible (length A) (length B) \<Longrightarrow> rows_op f A B = Inl ShapeError"
  by (simp add: rows_op_def broadcast_incompatible bind_err_def)

lemma length_float_of [simp]: "length (float_of labels) = length labels"
  by (simp add: float_of_def)

lemma cluster_loss_same:
  "length distances = length labels \<Longrightarrow> \<exists>v. cluster_loss distances labels = Inr v"
  by (simp add: cluster_loss_def broadcast_same bind_err_def)

lemma cone_loss_same:
  "length energies = length labels \<Longrightarrow> \<exists>v. cone_loss energies labels = Inr v"
  by (simp add: cone_loss_def broadcast_same bind_err_def)

lemma centri_loss_same:
  "length an = length labels \<Longrightarrow> length on = length labels \<Longrightarrow>
   centri_loss an on labels =
     Inr (tdiv (tsum (map2 tmul (float_of labels)
                        (map trelu (map2 tsub (map (tadd (Fin (1 / 2))) on) an))))
               (tsum (float_of labels)))"
  by (simp add: centri_loss_def broadcast_same bind_err_def)

lemma energy_same:
  assumes "length T = length U" "list_all (\<lambda>x. length x = d) T" "list_all (\<lambda>x. length x = d) U"
  shows "\<exists>es. energy T U = Inr es \<and> length es = length T"
  using assms(1) rows_op_same[OF assms, of cone_angle_at_u]
  by (simp add: energy_def bind_err_def broadcast_same)

lemma forward_well_shaped:
  assumes "well_shaped d rep_anchor rep_other labels"
  shows "\<exists>cluster cone.
     forward m lw [rep_anchor, rep_other] labels =
       Inr (tadd (tadd (tmul (Fin (w_cluster lw)) cluster)
                       (tmul (Fin (w_centri lw))
                          (tdiv (tsum (map2 tmul (float_of labels)
                                   (map trelu
                                      (map2 tsub
                                         (map (tadd (Fin (1 / 2)))
                                            (map (\<lambda>x. mdist m x (origin x)) rep_other))
                                         (map (\<lambda>x. mdist m x (origin x)) rep_anchor)))))
                                (tsum (float_of labels)))))
                 (tmul (Fin (w_cone lw)) cone))"
proof -
  have l1: "length rep_other = length rep_anchor" and l2: "length labels = length rep_anchor"
    and d1: "list_all (\<lambda>x. length x = d) rep_anchor"
    and d2: "list_all (\<lambda>x. length x = d) rep_other"
    using assms by (simp_all add: well_shaped_def)
  have ds: "rows_op (mdist m) rep_anchor rep_other = Inr (map2 (mdist m) rep_anchor rep_other)"
    using rows_op_same[OF l1[symmetric] d1 d2] .
  obtain cluster where cl:
    "cluster_loss (map2 (mdist m) rep_anchor rep_other) labels = Inr cluster"
    using cluster_loss_same[of "map2 (mdist m) rep_anchor rep_other" labels] l1 l2 by auto
  obtain es where es: "energy rep_other rep_anchor = Inr es" "length es = length rep_other"
    using energy_same[OF l1 d2 d1] by blast
  obtain cone where co: "cone_loss es labels = Inr cone"
    using cone_loss_same[of es labels] es(2) l1 l2 by auto
  have ce: "centri_loss (map (\<lambda>x. mdist m x (origin x)) rep_anchor)
              (map (\<lambda>x. mdist m x (origin x)) rep_other) labels =
     Inr (tdiv (tsum (map2 tmul (float_of labels)
                        (map trelu
                           (map2 tsub
                              (map (tadd (Fin (1 / 2)))
                                 (map (\<lambda>x. mdist m x (origin x)) rep_other))
                              (map (\<lambda>x. mdist m x (origin x)) rep_anchor)))))
               (tsum (float_of labels)))"
    by (rule centri_loss_same) (simp_all add: l1 l2)
  show ?thesis
    by (intro exI[of _ cluster] exI[of _ cone])
       (simp add: forward_def ds cl ce es co bind_err_def)
qed

lemma forward_batch_mismatch:
  "\<not> compatible (length rep_anchor) (length rep_other) \<Longrightarrow>
   forward m lw [rep_anchor, rep_other] labels = Inl ShapeError"
  by (simp add: forward_def rows_op_incompatible bind_err_def)

lemma forward_assertion:
  "length reps \<noteq> 2 \<Longrightarrow> forward m lw reps labels = Inl AssertionError"
proof (cases reps)
  case Nil
  then show ?thesis by (simp add: forward_def)
next
  case (Cons a as)
  assume n: "length reps \<noteq> 2"
  show ?thesis
  proof (cases as)
    case Nil
    then show ?thesis using Cons by (simp add: forward_def)
  next
    case (Cons b bs)
    then have "bs \<noteq> []" using n \<open>reps = a # as\<close> by auto
    then obtain c cs where "bs = c # cs" by (cases bs) auto
    then show ?thesis using Cons \<open>reps = a # as\<close> by (simp add: forward_def)
  qed
qed

subsection \<open>Vectors of one dimension\<close>


lemma dot_commute: "length x = length u \<Longrightarrow> dot x u = dot u x"
  unfolding dot_def by (induction x u rule: list_induct2) (simp_all add: mult.commute)






subsection \<open>The cone angle\<close>







subsection \<open>Broadcasting in general\<close>

lemma length_bmap2: "length (bmap2 f xs ys) = blen (length xs) (length ys)"
  by (simp add: bmap2_def blen_def)

lemma bmap2_Pair: "bmap2 f xs ys = map (\<lambda>p. f (fst p) (snd p)) (bmap2 Pair xs ys)"
  by (simp add: bmap2_def split_def comp_def)

lemma blen_sym: "compatible a b \<Longrightarrow> blen b a = blen a b"
  by (auto simp: blen_def compatible_def)

lemma compatible_sym: "compatible a b = compatible b a"
  by (auto simp: compatible_def)

lemma compatible_blen: "compatible a b \<Longrightarrow> compatible (blen a b) b"
  by (auto simp: blen_def compatible_def)

lemma compatible_blen_self: "compatible (blen a b) (blen a b)"
  by (simp add: compatible_def)

lemma sequence_err_guard:
  "sequence_err (map (\<lambda>p. if P p then Inr (f p) else Inl ShapeError) zs) =
     (if list_all P zs then Inr (map f zs) else Inl ShapeError)"
  by (induction zs) (simp_all add: bind_err_def)

lemma rows_op_iff:
  "rows_op f A B =
     (if compatible (length A) (length B) \<and>
         list_all (\<lambda>p. compatible (length (fst p)) (length (snd p))) (bmap2 Pair A B)
      then Inr (bmap2 f A B) else Inl ShapeError)"
proof -
  let ?g = "\<lambda>u v. if compatible (length u) (length v) then Inr (f u v) else Inl ShapeError"
  have g: "bmap2 ?g A B =
      map (\<lambda>p. if compatible (length (fst p)) (length (snd p)) then Inr (f (fst p) (snd p))
                else Inl ShapeError) (bmap2 Pair A B)"
    by (rule bmap2_Pair)
  have f: "map (\<lambda>p. f (fst p) (snd p)) (bmap2 Pair A B) = bmap2 f A B"
    by (rule bmap2_Pair[symmetric])
  show ?thesis
    unfolding rows_op_def broadcast_def g
    by (simp add: bind_err_def sequence_err_guard f)
qed

lemma cluster_loss_iff:
  "rejected (cluster_loss distances labels) = (\<not> compatible (length labels) (length distances))"
  "\<not> compatible (length labels) (length distances) \<Longrightarrow>
     cluster_loss distances labels = Inl ShapeError"
  by (simp_all add: cluster_loss_def broadcast_def bind_err_def rejected_def length_bmap2
        compatible_def)

lemma cone_loss_iff:
  "rejected (cone_loss energies labels) = (\<not> compatible (length labels) (length energies))"
  "\<not> compatible (length labels) (length energies) \<Longrightarrow>
     cone_loss energies labels = Inl ShapeError"
  by (simp_all add: cone_loss_def broadcast_def bind_err_def rejected_def length_bmap2
        compatible_def)

lemma centri_loss_iff:
  assumes "compatible (length on) (length an)"
  shows "rejected (centri_loss an on labels) =
           (\<not> compatible (length labels) (blen (length on) (length an)))"
    and "\<not> compatible (length labels) (blen (length on) (length an)) \<Longrightarrow>
           centri_loss an on labels = Inl ShapeError"
  using assms
  by (simp_all add: centri_loss_def broadcast_def bind_err_def rejected_def length_bmap2)

lemma energy_iff:
  assumes "compatible (length T) (length U)"
    "list_all (\<lambda>p. compatible (length (fst p)) (length (snd p))) (bmap2 Pair T U)"
  shows "\<exists>es. energy T U = Inr es \<and> length es = blen (length T) (length U)"
proof -
  have c: "compatible (length (bmap2 cone_angle_at_u T U)) (length (map half_cone_aperture T))"
    using compatible_blen[of "length U" "length T"] assms(1) blen_sym[OF assms(1)]
    by (simp add: length_bmap2 compatible_sym)
  have "blen (blen (length T) (length U)) (length T) = blen (length T) (length U)"
    using assms(1) by (auto simp: blen_def compatible_def)
  then show ?thesis
    using assms c
    by (simp add: energy_def rows_op_iff bind_err_def broadcast_def length_bmap2)
qed


lemma pairs_swap:
  "list_all (\<lambda>p. compatible (length (fst p)) (length (snd p))) (bmap2 Pair B A) =
   list_all (\<lambda>p. compatible (length (fst p)) (length (snd p))) (bmap2 Pair A B)"
  if "compatible (length A) (length B)"
proof -
  have "bmap2 Pair B A = map (\<lambda>p. (snd p, fst p)) (bmap2 Pair A B)"
    using that
    by (auto simp: bmap2_def compatible_def zip_commute[of B A] split_def
          length_Suc_conv)
  then show ?thesis
    by (simp add: list_all_iff compatible_sym)
qed

lemma forward_pair:
  "\<not> shapes_broadcast A B labels \<Longrightarrow> forward m lw [A, B] labels = Inl ShapeError"
  "shapes_broadcast A B labels \<Longrightarrow> \<not> rejected (forward m lw [A, B] labels)"
proof -
  let ?P = "list_all (\<lambda>p. compatible (length (fst p)) (length (snd p))) (bmap2 Pair A B)"
  let ?N = "blen (length A) (length B)"
  show "forward m lw [A, B] labels = Inl ShapeError" if "\<not> shapes_broadcast A B labels"
  proof (cases "compatible (length A) (length B) \<and> ?P")
    case False
    then show ?thesis by (auto simp: forward_def rows_op_iff bind_err_def)
  next
    case True
    then have "\<not> compatible (length labels) ?N"
      using that by (simp add: shapes_broadcast_def length_bmap2)
    then show ?thesis
      using True
      by (simp add: forward_def rows_op_iff bind_err_def cluster_loss_iff(2) length_bmap2)
  qed
  show "\<not> rejected (forward m lw [A, B] labels)" if ok: "shapes_broadcast A B labels"
  proof -
    have c: "compatible (length A) (length B)" and p: ?P
      and l: "compatible (length labels) ?N"
      using ok by (simp_all add: shapes_broadcast_def length_bmap2)
    have c': "compatible (length B) (length A)" using c by (simp add: compatible_sym)
    have p': "list_all (\<lambda>p. compatible (length (fst p)) (length (snd p))) (bmap2 Pair B A)"
      using p pairs_swap[OF c] by simp
    have n': "blen (length B) (length A) = ?N" using c by (rule blen_sym)
    obtain cl where cl: "cluster_loss (bmap2 (mdist m) A B) labels = Inr cl"
      using cluster_loss_iff(1)[of "bmap2 (mdist m) A B" labels] l
      by (cases "cluster_loss (bmap2 (mdist m) A B) labels")
         (simp_all add: rejected_def length_bmap2)
    obtain ce where ce: "centri_loss (map (\<lambda>x. mdist m x (origin x)) A)
                           (map (\<lambda>x. mdist m x (origin x)) B) labels = Inr ce"
      using centri_loss_iff(1)[of "map (\<lambda>x. mdist m x (origin x)) B"
          "map (\<lambda>x. mdist m x (origin x)) A" labels] c' l n'
      by (cases "centri_loss (map (\<lambda>x. mdist m x (origin x)) A)
                   (map (\<lambda>x. mdist m x (origin x)) B) labels")
         (simp_all add: rejected_def)
    obtain es where es: "energy B A = Inr es" "length es = blen (length B) (length A)"
      using energy_iff[OF c' p'] by blast
    obtain co where co: "cone_loss es labels = Inr co"
      using cone_loss_iff(1)[of es labels] l es(2) n'
      by (cases "cone_loss es labels") (simp_all add: rejected_def)
    show ?thesis
      using c p by (simp add: forward_def rows_op_iff bind_err_def cl ce es co rejected_def)
  qed
qed

subsection \<open>Rounding to a binary format\<close>

lemma pow2_pos: "0 < (pow2 e :: 'a::floor_ceiling)"
  by (simp add: pow2_def)

lemma pow2_powi: "(pow2 e :: 'a::floor_ceiling) = 2 powi e"
  by (simp add: pow2_def power_int_def field_simps)

lemma pow2_mono: "a \<le> b \<Longrightarrow> (pow2 a :: 'a::floor_ceiling) \<le> pow2 b"
  unfolding pow2_powi by (rule power_int_increasing) simp_all

lemma round_half_even_eqI:
  fixes y :: "'a::floor_ceiling"
  assumes "\<bar>y - of_int m\<bar> < 1 / 2"
  shows "round_half_even y = m"
proof (cases "of_int m \<le> y")
  case True
  then have "\<lfloor>y\<rfloor> = m" using assms by (intro floor_unique) (auto simp: abs_less_iff)
  then show ?thesis using assms True by (simp add: round_half_even_def Let_def abs_less_iff)
next
  case False
  then have "\<lfloor>y\<rfloor> = m - 1" using assms by (intro floor_unique) (auto simp: abs_less_iff)
  then show ?thesis using assms False
    by (auto simp: round_half_even_def Let_def abs_less_iff)
qed

lemma find_upto:
  assumes "a \<le> e" "e \<le> b" "P e" "\<And>k. a \<le> k \<Longrightarrow> k < e \<Longrightarrow> \<not> P k"
  shows "find P [a..b] = Some e"
proof -
  have "[a..b] = [a..e - 1] @ e # [e + 1..b]"
    using assms(1,2) upto_split3[of a e b] by simp
  moreover have "find P [a..e - 1] = None"
    using assms(4) by (auto simp: find_None_iff)
  ultimately show ?thesis using assms(3) by (simp add: find_append)
qed

lemma binade_eqI:
  fixes x :: "'a::floor_ceiling"
  assumes "emin \<le> e" "e \<le> emax" "\<bar>x\<bar> < pow2 (e + 1)" "e = emin \<or> pow2 e \<le> \<bar>x\<bar>"
  shows "binade emin emax x = e"
proof -
  have "\<not> \<bar>x\<bar> < pow2 (k + 1)" if "emin \<le> k" "k < e" for k
  proof -
    have "pow2 (k + 1) \<le> (pow2 e :: 'a)" using that(2) by (intro pow2_mono) simp
    moreover have "pow2 e \<le> \<bar>x\<bar>" using assms(4) that by auto
    ultimately show ?thesis by simp
  qed
  then have "find (\<lambda>e. \<bar>x\<bar> < pow2 (e + 1)) [emin..emax] = Some e"
    using assms(1-3) by (intro find_upto) auto
  then show ?thesis by (simp add: binade_def)
qed

lemma float_round_eqI:
  fixes x :: "'a::floor_ceiling"
  assumes "emin \<le> e" "e \<le> emax" "\<bar>x\<bar> < pow2 (e + 1)" "e = emin \<or> pow2 e \<le> \<bar>x\<bar>"
    and "\<bar>x - of_int m * pow2 (e - int p + 1)\<bar> < pow2 (e - int p + 1) / 2"
  shows "float_round p emin emax x = of_int m * pow2 (e - int p + 1)"
proof -
  let ?u = "pow2 (e - int p + 1) :: 'a"
  have u: "0 < ?u" by (rule pow2_pos)
  have b: "binade emin emax x = e" using assms(1-4) by (rule binade_eqI)
  have "\<bar>x / ?u - of_int m\<bar> = \<bar>x - of_int m * ?u\<bar> / ?u"
    using u by (simp add: field_simps abs_divide flip: abs_mult)
  also have "\<dots> < 1 / 2" using assms(5) u by (simp add: field_simps)
  finally have "round_half_even (x / ?u) = m" by (rule round_half_even_eqI)
  then show ?thesis by (simp add: float_round_def b Let_def)
qed

lemma float32_round_eqI:
  fixes x :: "'a::floor_ceiling"
  assumes "- 126 \<le> e" "e \<le> 127" "\<bar>x\<bar> < pow2 (e + 1)" "e = - 126 \<or> pow2 e \<le> \<bar>x\<bar>"
    and "\<bar>x - of_int m * pow2 (e - 23)\<bar> < pow2 (e - 23) / 2"
    and "y = of_int m * pow2 (e - 23)"
  shows "float32_round x = y"
  using float_round_eqI[of "- 126" e 127 x m 24] assms by (simp add: float32_round_def)

lemma float64_round_eqI:
  fixes x :: "'a::floor_ceiling"
  assumes "- 1022 \<le> e" "e \<le> 1023" "\<bar>x\<bar> < pow2 (e + 1)" "e = - 1022 \<or> pow2 e \<le> \<bar>x\<bar>"
    and "\<bar>x - of_int m * pow2 (e - 52)\<bar> < pow2 (e - 52) / 2"
    and "y = of_int m * pow2 (e - 52)"
  shows "float64_round x = y"
  using float_round_eqI[of "- 1022" e 1023 x m 53] assms by (simp add: float64_round_def)

lemma float32_eqI:
  assumes "- 126 \<le> e" "e \<le> 127" "\<bar>x\<bar> < pow2 (e + 1)" "e = - 126 \<or> pow2 e \<le> \<bar>x\<bar>"
    and "\<bar>x - of_int m * pow2 (e - 23)\<bar> < pow2 (e - 23) / 2"
    and "y = of_int m * pow2 (e - 23)" "\<bar>y\<bar> < pow2 128"
  shows "float32 x = Fin y"
proof -
  have "float32_round x = y" using assms(1-6) by (rule float32_round_eqI)
  then show ?thesis using assms(7) by (simp add: float32_def Let_def abs_less_iff)
qed

lemma round_half_even_tie:
  fixes y :: "'a::floor_ceiling"
  assumes "y = of_int f + 1 / 2"
  shows "round_half_even y = (if even f then f else f + 1)"
proof -
  have "\<lfloor>y\<rfloor> = f" using assms by (intro floor_unique) simp_all
  then show ?thesis using assms by (simp add: round_half_even_def Let_def)
qed

lemma float_round_tieI:
  fixes x :: "'a::floor_ceiling"
  assumes "emin \<le> e" "e \<le> emax" "\<bar>x\<bar> < pow2 (e + 1)" "e = emin \<or> pow2 e \<le> \<bar>x\<bar>"
    and "x = (of_int f + 1 / 2) * pow2 (e - int p + 1)"
  shows "float_round p emin emax x = of_int (if even f then f else f + 1) * pow2 (e - int p + 1)"
proof -
  let ?u = "pow2 (e - int p + 1) :: 'a"
  have u: "0 < ?u" by (rule pow2_pos)
  have b: "binade emin emax x = e" using assms(1-4) by (rule binade_eqI)
  have "x / ?u = of_int f + 1 / 2" using u assms(5) by simp
  then have "round_half_even (x / ?u) = (if even f then f else f + 1)"
    by (rule round_half_even_tie)
  then show ?thesis by (simp add: float_round_def b Let_def)
qed

lemma float64_round_tieI:
  fixes x :: "'a::floor_ceiling"
  assumes "- 1022 \<le> e" "e \<le> 1023" "\<bar>x\<bar> < pow2 (e + 1)" "e = - 1022 \<or> pow2 e \<le> \<bar>x\<bar>"
    and "x = (of_int f + 1 / 2) * pow2 (e - 52)"
    and "y = of_int (if even f then f else f + 1) * pow2 (e - 52)"
  shows "float64_round x = y"
  using float_round_tieI[of "- 1022" e 1023 x f 53] assms by (simp add: float64_round_def)

subsection \<open>The evaluator on floating-point tensors\<close>

lemma composite_scores_rounded_map:
  "composite_scores_rounded rnd mat w =
     map (\<lambda>r. rnd (row_dist r + rnd (rnd w * rnd (row_other_norm r - row_anchor_norm r)))) mat"
  by (induction mat) (simp_all add: composite_scores_rounded_def column_def)

lemma composite_scores_map:
  "composite_scores mat w =
     map (\<lambda>r. row_dist r + w * (row_other_norm r - row_anchor_norm r)) mat"
  by (induction mat)
     (simp_all add: composite_scores_def column_def tensor_add_def tensor_sub_def scalar_mul_def)

lemma composite_scores_rounded_exact:
  "composite_scores_rounded (\<lambda>x. x) mat w = composite_scores mat w"
  by (simp add: composite_scores_rounded_map composite_scores_map)

lemma threshold_range_rounded_exact:
  "threshold_range_rounded (\<lambda>x. x) (\<lambda>x. x) scores g = threshold_range scores g"
  by (simp add: threshold_range_rounded_def threshold_range_def)

lemma weight_loop_rounded_exact:
  "weight_loop_rounded (\<lambda>x. x) (\<lambda>x. x) te mat g ws st = weight_loop te mat g ws st"
  by (induction ws arbitrary: st)
     (simp_all add: composite_scores_rounded_exact threshold_range_rounded_exact Let_def
        split: sum.splits del: of_nat_add of_nat_Suc)

lemma evaluate_rounded_exact:
  "evaluate_rounded (\<lambda>x. x) (\<lambda>x. x) te mat g bw bt = evaluate te mat g bw bt"
  by (auto simp: evaluate_rounded_def evaluate_def search_mode_rounded_def search_mode_def
        apply_mode_rounded_def apply_mode_def weight_loop_rounded_exact
        composite_scores_rounded_exact split: option.splits)

lemma threshold_step_from_scores:
  assumes "from_scores rnd te mat st" "i < 10"
  shows "from_scores rnd te mat
           (threshold_step te (composite_scores_rounded rnd mat (of_nat (i + 1)))
              (column row_label mat) (of_nat (i + 1)) st t)"
  using assms unfolding from_scores_def threshold_step_def Let_def column_def
  by (auto split: option.splits simp del: of_nat_add of_nat_Suc)

lemma fold_threshold_step_from_scores:
  assumes "from_scores rnd te mat st" "i < 10"
  shows "from_scores rnd te mat
           (fold (\<lambda>t s. threshold_step te (composite_scores_rounded rnd mat (of_nat (i + 1)))
              (column row_label mat) (of_nat (i + 1)) s t) ts st)"
  using assms(1)
proof (induction ts arbitrary: st)
  case Nil
  then show ?case by simp
next
  case (Cons t ts)
  show ?case
    using Cons.IH[OF threshold_step_from_scores[OF Cons.prems assms(2), of t]] by simp
qed

lemma weight_loop_rounded_from_scores:
  assumes "from_scores rnd te mat st" "\<forall>i \<in> set ws. i < 10"
    "weight_loop_rounded rnd rnd_py te mat g ws st = Inr st'"
  shows "from_scores rnd te mat st'"
  using assms
proof (induction ws arbitrary: st)
  case Nil
  then show ?case by simp
next
  case (Cons i ws)
  show ?case
  proof (cases "is_updated st")
    case False
    then show ?thesis using Cons.prems by simp
  next
    case True
    have i: "i < 10" using Cons.prems(2) by simp
    obtain ts where ts: "threshold_range_rounded rnd rnd_py
        (composite_scores_rounded rnd mat (of_nat (i + 1))) g = Inr ts"
      using Cons.prems(3) True
      by (cases "threshold_range_rounded rnd rnd_py
                   (composite_scores_rounded rnd mat (of_nat (i + 1))) g")
         (simp_all add: Let_def del: of_nat_add of_nat_Suc)
    have f: "from_scores rnd te mat (st\<lparr>is_updated := False\<rparr>)"
      using Cons.prems(1) by (simp add: from_scores_def)
    show ?thesis
      using Cons.IH[OF fold_threshold_step_from_scores[OF f i, of ts]] Cons.prems(2,3) True ts
      by (simp add: Let_def del: of_nat_add of_nat_Suc)
  qed
qed

lemma search_mode_rounded_from_scores:
  assumes "search_mode_rounded rnd rnd_py te mat g = Inr (Some res)"
  shows "\<exists>i<10. \<exists>t. res = \<lparr>centri_score_weight = of_nat (i + 1),
           scores_of = te (composite_scores_rounded rnd mat (of_nat (i + 1)))
                          (map row_label mat) t\<rparr>"
proof -
  let ?st0 = "\<lparr>best_f1 = - 1, best_results = None, is_updated = True\<rparr>"
  obtain st' where st': "weight_loop_rounded rnd rnd_py te mat g [0..<10] ?st0 = Inr st'"
    and r: "best_results st' = Some res"
    using assms unfolding search_mode_rounded_def by (auto split: sum.splits)
  have "from_scores rnd te mat ?st0" by (simp add: from_scores_def)
  then have "from_scores rnd te mat st'"
    using weight_loop_rounded_from_scores[OF _ _ st'] by simp
  then show ?thesis using r unfolding from_scores_def by blast
qed

lemma evaluate_rounded_search:
  "\<not> (truthy bt \<and> truthy bw) \<Longrightarrow>
     evaluate_rounded rnd rnd_py te mat g bw bt = search_mode_rounded rnd rnd_py te mat g"
  by (auto simp: evaluate_rounded_def)

lemma evaluate_rounded_apply:
  "w \<noteq> 0 \<Longrightarrow> t \<noteq> 0 \<Longrightarrow>
     evaluate_rounded rnd rnd_py te mat g (Some w) (Some t) =
       Inr (Some \<lparr>centri_score_weight = w,
                  scores_of = te (composite_scores_rounded rnd mat w) (map row_label mat) t\<rparr>)"
  by (simp add: evaluate_rounded_def truthy_def apply_mode_rounded_def column_def)

lemma example_float32:
  "to_tensor float32_round example_matrix =
     [\<lparr>row_label = 1, row_dist = 1 / 2, row_anchor_norm = 7549747 / 8388608,
       row_other_norm = 5033165 / 16777216\<rparr>,
      \<lparr>row_label = 0, row_dist = 3, row_anchor_norm = 7549747 / 8388608,
       row_other_norm = 7549747 / 8388608\<rparr>]"
  "composite_scores_rounded float32_round (to_tensor float32_round example_matrix) 1 =
     [- 1677721 / 16777216, 3]"
  "float32_round (- 1 / 10 :: rat) = - 13421773 / 134217728"
proof -
  have r0: "float32_round (0 :: rat) = 0"
    by (rule float32_round_eqI[where e="- 126" and m=0]) (simp_all add: pow2_def)
  have r1: "float32_round (1 :: rat) = 1"
    by (rule float32_round_eqI[where e=0 and m=8388608]) (simp_all add: pow2_def)
  have r2: "float32_round (1 / 2 :: rat) = 1 / 2"
    by (rule float32_round_eqI[where e="- 1" and m=8388608]) (simp_all add: pow2_def)
  have r3: "float32_round (3 :: rat) = 3"
    by (rule float32_round_eqI[where e=1 and m=12582912]) (simp_all add: pow2_def)
  have r4: "float32_round (9 / 10 :: rat) = 7549747 / 8388608"
    by (rule float32_round_eqI[where e="- 1" and m=15099494]) (simp_all add: pow2_def)
  have r5: "float32_round (3 / 10 :: rat) = 5033165 / 16777216"
    by (rule float32_round_eqI[where e="- 2" and m=10066330]) (simp_all add: pow2_def)
  have r6: "float32_round (5033165 / 16777216 - 7549747 / 8388608 :: rat) =
              - 10066329 / 16777216"
    by (rule float32_round_eqI[where e="- 1" and m="- 10066329"]) (simp_all add: pow2_def)
  have r7: "float32_round (1 / 2 + - 10066329 / 16777216 :: rat) = - 1677721 / 16777216"
    by (rule float32_round_eqI[where e="- 4" and m="- 13421768"]) (simp_all add: pow2_def)
  show t: "to_tensor float32_round example_matrix =
     [\<lparr>row_label = 1, row_dist = 1 / 2, row_anchor_norm = 7549747 / 8388608,
       row_other_norm = 5033165 / 16777216\<rparr>,
      \<lparr>row_label = 0, row_dist = 3, row_anchor_norm = 7549747 / 8388608,
       row_other_norm = 7549747 / 8388608\<rparr>]"
    by (simp add: to_tensor_def example_matrix_def r0 r1 r2 r3 r4 r5)
  show "composite_scores_rounded float32_round (to_tensor float32_round example_matrix) 1 =
     [- 1677721 / 16777216, 3]"
    unfolding t
    by (simp add: composite_scores_rounded_def column_def r0 r1 r3 r6[simplified] r7[simplified])
  show "float32_round (- 1 / 10 :: rat) = - 13421773 / 134217728"
    by (rule float32_round_eqI[where e="- 4" and m="- 13421773"]) (simp_all add: pow2_def)
qed

lemma example_float64:
  "to_tensor float64_round example_matrix =
     [\<lparr>row_label = 1, row_dist = 1 / 2, row_anchor_norm = 8106479329266893 / 9007199254740992,
       row_other_norm = 5404319552844595 / 18014398509481984\<rparr>,
      \<lparr>row_label = 0, row_dist = 3, row_anchor_norm = 8106479329266893 / 9007199254740992,
       row_other_norm = 8106479329266893 / 9007199254740992\<rparr>]"
  "composite_scores_rounded float64_round (to_tensor float64_round example_matrix) 1 =
     [- 225179981368525 / 2251799813685248, 3]"
  "float64_round (- 1 / 10 :: rat) = - 3602879701896397 / 36028797018963968"
proof -
  have r0: "float64_round (0 :: rat) = 0"
    by (rule float64_round_eqI[where e="- 1022" and m=0]) (simp_all add: pow2_def)
  have r1: "float64_round (1 :: rat) = 1"
    by (rule float64_round_eqI[where e=0 and m=4503599627370496]) (simp_all add: pow2_def)
  have r2: "float64_round (1 / 2 :: rat) = 1 / 2"
    by (rule float64_round_eqI[where e="- 1" and m=4503599627370496]) (simp_all add: pow2_def)
  have r3: "float64_round (3 :: rat) = 3"
    by (rule float64_round_eqI[where e=1 and m=6755399441055744]) (simp_all add: pow2_def)
  have r4: "float64_round (9 / 10 :: rat) = 8106479329266893 / 9007199254740992"
    by (rule float64_round_eqI[where e="- 1" and m=8106479329266893]) (simp_all add: pow2_def)
  have r5: "float64_round (3 / 10 :: rat) = 5404319552844595 / 18014398509481984"
    by (rule float64_round_eqI[where e="- 2" and m=5404319552844595]) (simp_all add: pow2_def)
  have r6: "float64_round (5404319552844595 / 18014398509481984 -
                8106479329266893 / 9007199254740992 :: rat) =
              - 1351079888211149 / 2251799813685248"
    by (rule float64_round_tieI[where e="- 1" and f="- 5404319552844596"]) (simp_all add: pow2_def)
  have r6': "float64_round (- 1351079888211149 / 2251799813685248 :: rat) =
               - 1351079888211149 / 2251799813685248"
    by (rule float64_round_eqI[where e="- 1" and m="- 5404319552844596"])
       (simp_all add: pow2_def)
  have r7: "float64_round (1 / 2 + - 1351079888211149 / 2251799813685248 :: rat) =
              - 225179981368525 / 2251799813685248"
    by (rule float64_round_eqI[where e="- 4" and m="- 7205759403792800"]) (simp_all add: pow2_def)
  have r8: "float64_round (- 1 / 10 :: rat) = - 3602879701896397 / 36028797018963968"
    by (rule float64_round_eqI[where e="- 4" and m="- 7205759403792794"]) (simp_all add: pow2_def)
  show t: "to_tensor float64_round example_matrix =
     [\<lparr>row_label = 1, row_dist = 1 / 2, row_anchor_norm = 8106479329266893 / 9007199254740992,
       row_other_norm = 5404319552844595 / 18014398509481984\<rparr>,
      \<lparr>row_label = 0, row_dist = 3, row_anchor_norm = 8106479329266893 / 9007199254740992,
       row_other_norm = 8106479329266893 / 9007199254740992\<rparr>]"
    by (simp add: to_tensor_def example_matrix_def r0 r1 r2 r3 r4 r5)
  show "composite_scores_rounded float64_round (to_tensor float64_round example_matrix) 1 =
     [- 225179981368525 / 2251799813685248, 3]"
    unfolding t
    by (simp add: composite_scores_rounded_def column_def r0 r1 r3 r6[simplified]
          r6'[simplified] r7[simplified])
  show "float64_round (- 1 / 10 :: rat) = - 3602879701896397 / 36028797018963968"
    by (rule r8)
qed

subsection \<open>Degenerate matrices\<close>

lemma single_row_search: "search_mode te [r] g = Inr None"
proof -
  have "threshold_range [x] g = Inr []" for x :: rat
    by (simp add: threshold_range_def tensor_min_def tensor_max_def)
  moreover have "\<exists>x. composite_scores [r] w = [x]" for w
    by (simp add: composite_scores_def column_def tensor_add_def tensor_sub_def scalar_mul_def)
  ultimately have "threshold_range (composite_scores [r] w) g = Inr []" for w
    by metis
  then show ?thesis
    by (simp add: search_mode_def upt_rec[of 0 10] weight_loop_stop del: of_nat_add of_nat_Suc)
qed

lemma composite_scores_relabel:
  "composite_scores (map (row_label_update f) mat) w = composite_scores mat w"
  by (simp add: composite_scores_def column_def comp_def)

lemma column_relabel:
  "column row_label (map (row_label_update f) mat) = map f (column row_label mat)"
  by (simp add: column_def)

lemma threshold_step_relabel:
  "threshold_step te scores (map f labels) w st t =
     threshold_step (\<lambda>s ls. te s (map f ls)) scores labels w st t"
  by (simp add: threshold_step_def)

lemma weight_loop_relabel:
  "weight_loop te (map (row_label_update f) mat) g ws st =
     weight_loop (\<lambda>s ls. te s (map f ls)) mat g ws st"
  by (induction ws arbitrary: st)
     (simp_all add: composite_scores_relabel column_relabel threshold_step_relabel Let_def
        split: sum.splits del: of_nat_add of_nat_Suc)

lemma evaluate_relabel:
  "evaluate te (map (row_label_update f) mat) g bw bt =
     evaluate (\<lambda>s ls. te s (map f ls)) mat g bw bt"
  by (auto simp: evaluate_def search_mode_def apply_mode_def weight_loop_relabel
        composite_scores_relabel column_relabel split: option.splits)

section \<open>Claims about the threshold evaluator\<close>

text \<open>
  C1. Claimed: with a weight and a threshold supplied, \<open>evaluate\<close> skips the grid search and
  computes the metrics at the given pair. The guard tests the truth value of both arguments,
  so a supplied threshold \<open>0.0\<close> runs the search again. Here the search on the validation
  matrix selects weight 1 and threshold 0; handing that pair to \<open>evaluate\<close> with the test
  matrix returns the searched threshold \<open>-0.1\<close> with F1 1, where the metrics at the supplied
  pair have F1 2/3.
\<close>

theorem evaluate_zero_threshold_searches:
  "search_mode threshold_evaluate val_matrix 10 =
     Inr (Some \<lparr>centri_score_weight = 1,
                scores_of = \<lparr>threshold = 0, precision = Some 1, recall = Some 1,
                             F1 = Some 1, accuracy = Some 1\<rparr>\<rparr>) \<and>
   evaluate threshold_evaluate test_matrix 10 (Some 1) (Some 0) =
     Inr (Some \<lparr>centri_score_weight = 1,
                scores_of = \<lparr>threshold = - 1 / 10, precision = Some 1, recall = Some 1,
                             F1 = Some 1, accuracy = Some 1\<rparr>\<rparr>) \<and>
   apply_mode threshold_evaluate test_matrix 1 0 =
     \<lparr>centri_score_weight = 1,
      scores_of = \<lparr>threshold = 0, precision = Some (1 / 2), recall = Some 1,
                   F1 = Some (2 / 3), accuracy = Some (2 / 3)\<rparr>\<rparr>"
  by code_simp

text \<open>
  C3. Claimed: the composite score of every row is
  \<open>distance + weight * (norm(other) - norm(anchor))\<close>, and the two example rows with weight 1
  give exactly \<open>[-0.1, 3.0]\<close>. The scores are computed on a floating-point tensor, where the
  subtraction, the multiplication and the addition each round. For the example rows in
  binary32 the first score is \<open>-1677721 / 16777216\<close>, that is \<open>-0.09999996423721313\<close>, which
  is neither \<open>-0.1\<close> nor the binary32 number nearest to \<open>-0.1\<close>; in binary64 it is
  \<open>-0.10000000000000009\<close>, which is neither \<open>-0.1\<close> nor the binary64 number nearest to it.
\<close>

theorem example_scores_not_exact:
  "composite_scores_rounded float32_round (to_tensor float32_round example_matrix) 1 =
     [- 1677721 / 16777216, 3] \<and>
   float32_round (- 1 / 10 :: rat) = - 13421773 / 134217728 \<and>
   composite_scores_rounded float32_round (to_tensor float32_round example_matrix) 1 \<noteq>
     [- 1 / 10, 3] \<and>
   composite_scores_rounded float32_round (to_tensor float32_round example_matrix) 1 \<noteq>
     [float32_round (- 1 / 10), 3] \<and>
   composite_scores_rounded float64_round (to_tensor float64_round example_matrix) 1 =
     [- 225179981368525 / 2251799813685248, 3] \<and>
   float64_round (- 1 / 10 :: rat) = - 3602879701896397 / 36028797018963968 \<and>
   composite_scores_rounded float64_round (to_tensor float64_round example_matrix) 1 \<noteq>
     [- 1 / 10, 3] \<and>
   composite_scores_rounded float64_round (to_tensor float64_round example_matrix) 1 \<noteq>
     [float64_round (- 1 / 10), 3]"
  using example_float32(2,3) example_float64(2,3) by simp

text \<open>
  C3, as the code has it. The composite score of a row is
  \<open>rnd(distance + rnd(rnd(weight) * rnd(norm(other) - norm(anchor))))\<close>, where \<open>rnd\<close> rounds to
  the type of the score matrix. These are the scores that \<open>evaluate\<close> hands to
  \<open>threshold_evaluate\<close>: with the supplied weight when a non-zero weight and a non-zero
  threshold are supplied, and otherwise, in the search, with the weight that is returned, one
  of 1 to 10. In exact arithmetic, where nothing is rounded, the evaluator is the one of the
  sections above, and the score is \<open>distance + weight * (norm(other) - norm(anchor))\<close>.
\<close>

theorem evaluate_composite_scores:
  "composite_scores_rounded rnd mat w =
     map (\<lambda>r. rnd (row_dist r + rnd (rnd w * rnd (row_other_norm r - row_anchor_norm r)))) mat \<and>
   (w \<noteq> 0 \<and> t \<noteq> 0 \<longrightarrow>
      evaluate_rounded rnd rnd_py te mat g (Some w) (Some t) =
        Inr (Some \<lparr>centri_score_weight = w,
                   scores_of = te (composite_scores_rounded rnd mat w) (map row_label mat) t\<rparr>)) \<and>
   (\<not> (truthy bt \<and> truthy bw) \<and> evaluate_rounded rnd rnd_py te mat g bw bt = Inr (Some res) \<longrightarrow>
      (\<exists>i<10. \<exists>t'. res =
         \<lparr>centri_score_weight = of_nat (i + 1),
          scores_of = te (composite_scores_rounded rnd mat (of_nat (i + 1)))
                         (map row_label mat) t'\<rparr>)) \<and>
   evaluate_rounded (\<lambda>x. x) (\<lambda>x. x) te mat g bw bt = evaluate te mat g bw bt \<and>
   composite_scores mat w =
     map (\<lambda>r. row_dist r + w * (row_other_norm r - row_anchor_norm r)) mat"
proof -
  have s: "\<exists>i<10. \<exists>t'. res =
         \<lparr>centri_score_weight = of_nat (i + 1),
          scores_of = te (composite_scores_rounded rnd mat (of_nat (i + 1)))
                         (map row_label mat) t'\<rparr>"
    if "\<not> (truthy bt \<and> truthy bw)" "evaluate_rounded rnd rnd_py te mat g bw bt = Inr (Some res)"
    using that evaluate_rounded_search[of bt bw rnd rnd_py te mat g]
      search_mode_rounded_from_scores[of rnd rnd_py te mat g res]
    by simp
  show ?thesis
    using s composite_scores_rounded_map[of rnd mat w] evaluate_rounded_apply[of w t rnd rnd_py te mat g]
      evaluate_rounded_exact[of te mat g bw bt] composite_scores_map[of mat w]
    by blast
qed

theorem evaluate_composite_scores_witness:
  "(1 :: rat) \<noteq> 0 \<and> (- 3602879701896397 / 36028797018963968 :: rat) \<noteq> 0 \<and>
   evaluate_rounded float32_round float64_round threshold_evaluate
       (to_tensor float32_round example_matrix) 10 (Some 1)
       (Some (- 3602879701896397 / 36028797018963968)) =
     Inr (Some \<lparr>centri_score_weight = 1,
                scores_of = \<lparr>threshold = - 3602879701896397 / 36028797018963968,
                             precision = None, recall = Some 0, F1 = None,
                             accuracy = Some (1 / 2)\<rparr>\<rparr>) \<and>
   \<not> (truthy None \<and> truthy None) \<and>
   evaluate_rounded (\<lambda>x. x) (\<lambda>x. x) threshold_evaluate example_matrix 1 None None =
     Inr (Some \<lparr>centri_score_weight = 1,
                scores_of = threshold_evaluate (composite_scores_rounded (\<lambda>x. x) example_matrix 1)
                              (map row_label example_matrix) 0\<rparr>) \<and>
   (\<exists>i<10. \<exists>t'.
      \<lparr>centri_score_weight = 1,
       scores_of = threshold_evaluate (composite_scores_rounded (\<lambda>x. x) example_matrix 1)
                     (map row_label example_matrix) 0\<rparr> =
      \<lparr>centri_score_weight = of_nat (i + 1),
       scores_of = threshold_evaluate
                     (composite_scores_rounded (\<lambda>x. x) example_matrix (of_nat (i + 1)))
                     (map row_label example_matrix) t'\<rparr>)"
proof -
  let ?t = "- 3602879701896397 / 36028797018963968 :: rat"
  let ?R = "\<lparr>centri_score_weight = 1,
       scores_of = threshold_evaluate (composite_scores_rounded (\<lambda>x. x) example_matrix 1)
                     (map row_label example_matrix) 0\<rparr>"
  have h1: "(1 :: rat) \<noteq> 0 \<and> ?t \<noteq> 0" by simp
  have h2: "\<not> (truthy None \<and> truthy None)" by (simp add: truthy_def)
  have e: "evaluate_rounded (\<lambda>x. x) (\<lambda>x. x) threshold_evaluate example_matrix 1 None None =
     Inr (Some ?R)"
    by code_simp
  have labels: "map row_label (to_tensor float32_round example_matrix) = [1, 0]"
    by (simp add: example_float32(1))
  have a: "evaluate_rounded float32_round float64_round threshold_evaluate
       (to_tensor float32_round example_matrix) 10 (Some 1) (Some ?t) =
     Inr (Some \<lparr>centri_score_weight = 1,
                scores_of = \<lparr>threshold = ?t, precision = None, recall = Some 0, F1 = None,
                             accuracy = Some (1 / 2)\<rparr>\<rparr>)"
    using h1 evaluate_composite_scores[of float32_round "to_tensor float32_round example_matrix"
        1 ?t float64_round threshold_evaluate 10 None None undefined]
    by (simp add: example_float32(2) labels threshold_evaluate_def count_div_def harmonic_def)
  have b: "\<exists>i<10. \<exists>t'. ?R =
      \<lparr>centri_score_weight = of_nat (i + 1),
       scores_of = threshold_evaluate
                     (composite_scores_rounded (\<lambda>x. x) example_matrix (of_nat (i + 1)))
                     (map row_label example_matrix) t'\<rparr>"
    using h2 e evaluate_composite_scores[of "\<lambda>x. x" example_matrix 1 1 "\<lambda>x. x"
        threshold_evaluate 1 None None ?R]
    by blast
  show ?thesis using h1 h2 e a b by blast
qed

text \<open>
  C4. In search mode the weights 1 to 10 are scanned in increasing order, each with its
  thresholds in increasing order; the scan stops after the first weight that brings no
  improvement on the best F1 seen so far; and the result is the first candidate in scan order
  that has the best F1.
\<close>

theorem search_mode_first_best:
  assumes "mat \<noteq> []" "0 < g"
  shows "search_mode te mat g =
           Inr (first_best (map (candidate te mat) (grid_upto mat g (weights_scanned te mat g)))) \<and>
         sorted_wrt scan_before (grid_upto mat g (weights_scanned te mat g)) \<and>
         1 \<le> weights_scanned te mat g \<and> weights_scanned te mat g \<le> 10 \<and>
         (\<forall>i. i + 1 < weights_scanned te mat g \<longrightarrow> \<not> no_improvement te mat g i) \<and>
         (weights_scanned te mat g < 10 \<longrightarrow>
            no_improvement te mat g (weights_scanned te mat g - 1))"
proof -
  let ?n = "weights_scanned te mat g"
  have res: "search_mode te mat g = Inr (first_best (map (candidate te mat) (grid_upto mat g ?n)))"
    using search_mode_characterised[OF assms(1)] by (simp add: candidates_upto_def)
  have srt: "sorted_wrt scan_before (grid_upto mat g ?n)"
    using assms(2) by (rule grid_upto_sorted)
  have bounds: "1 \<le> ?n \<and> ?n \<le> 10"
    by (auto simp: weights_scanned_def find_Some_iff split: option.splits)
  have before: "\<not> no_improvement te mat g i" if "i + 1 < ?n" for i
  proof (cases "find (no_improvement te mat g) [0..<10]")
    case None
    then have "?n = 10" by (simp add: weights_scanned_def)
    then have "i \<in> set [0..<10]" using that by simp
    then show ?thesis using None unfolding find_None_iff by blast
  next
    case (Some j)
    then have "i < j" using that by (simp add: weights_scanned_def)
    moreover obtain k where "k < length [0..<10]" "[0..<10] ! k = j"
        "\<forall>l<k. \<not> no_improvement te mat g ([0..<10] ! l)"
      using Some unfolding find_Some_iff by blast
    ultimately show ?thesis by auto
  qed
  have stop: "no_improvement te mat g (?n - 1)" if "?n < 10"
  proof (cases "find (no_improvement te mat g) [0..<10]")
    case None
    then show ?thesis using that by (simp add: weights_scanned_def)
  next
    case (Some j)
    then have "no_improvement te mat g j" unfolding find_Some_iff by blast
    then show ?thesis using Some by (simp add: weights_scanned_def)
  qed
  show ?thesis using res srt bounds before stop by blast
qed

theorem search_mode_first_best_witness:
  "test_matrix \<noteq> [] \<and> (0::int) < 10 \<and>
   weights_scanned threshold_evaluate test_matrix 10 = 2 \<and>
   search_mode threshold_evaluate test_matrix 10 =
     Inr (Some \<lparr>centri_score_weight = 1,
                scores_of = \<lparr>threshold = - 1 / 10, precision = Some 1, recall = Some 1,
                             F1 = Some 1, accuracy = Some 1\<rparr>\<rparr>)"
proof -
  have h: "test_matrix \<noteq> []" by (simp add: test_matrix_def)
  have g: "(0::int) < 10" by simp
  have n: "weights_scanned threshold_evaluate test_matrix 10 = 2" by code_simp
  have "first_best (map (candidate threshold_evaluate test_matrix) (grid_upto test_matrix 10 2)) =
     Some \<lparr>centri_score_weight = 1,
                scores_of = \<lparr>threshold = - 1 / 10, precision = Some 1, recall = Some 1,
                             F1 = Some 1, accuracy = Some 1\<rparr>\<rparr>"
    by code_simp
  then show ?thesis
    using h n search_mode_first_best[OF h g, of threshold_evaluate] by simp
qed

text \<open>
  C5. Claimed: an empty or single-label score matrix is reported as a condition under which
  the metrics cannot be computed. The evaluator makes no such check: for a matrix of one row,
  whose labels are of one class, the range of thresholds is empty, \<open>threshold_evaluate\<close> is
  never called, and \<open>evaluate\<close> returns \<open>None\<close> without raising or reporting anything. This
  holds whatever \<open>threshold_evaluate\<close> does.
\<close>

theorem one_row_matrix_not_reported:
  "evaluate threshold_evaluate
     [\<lparr>row_label = 1, row_dist = 1 / 2, row_anchor_norm = 3 / 4, row_other_norm = 1 / 4\<rparr>]
     100 None None = Inr None"
  by (simp add: evaluate_falsy truthy_def single_row_search)

text \<open>
  C5, as the code has it. \<open>evaluate\<close> has no check of its own for degenerate input. In the
  search an empty matrix fails in the tensor library, at the minimum of a tensor without
  elements, and a matrix of one row returns \<open>None\<close>. With a non-zero weight and a non-zero
  threshold supplied, the result is what \<open>threshold_evaluate\<close> returns at that pair, for every
  matrix, the empty one included. The label column is used only as an argument of
  \<open>threshold_evaluate\<close>: replacing the labels of the matrix is the same as replacing the
  labels that \<open>threshold_evaluate\<close> is given, so whatever is reported for a single-label matrix
  is reported by \<open>threshold_evaluate\<close>.
\<close>

theorem evaluate_label_blind:
  "evaluate te [] g None None = Inl EmptyReduction \<and>
   evaluate te [r] g None None = Inr None \<and>
   (w \<noteq> 0 \<and> t \<noteq> 0 \<longrightarrow>
      evaluate te mat g (Some w) (Some t) =
        Inr (Some \<lparr>centri_score_weight = w,
                   scores_of = te (composite_scores mat w) (map row_label mat) t\<rparr>)) \<and>
   evaluate te (map (row_label_update f) mat) g bw bt =
     evaluate (\<lambda>scores labels. te scores (map f labels)) mat g bw bt"
  using evaluate_relabel[of te f mat g bw bt]
  by (simp add: evaluate_falsy truthy_def search_mode_empty single_row_search evaluate_truthy
        apply_mode_def column_def)

theorem evaluate_label_blind_witness:
  "(1 :: rat) \<noteq> 0 \<and>
   evaluate threshold_evaluate [] 100 (Some 1) (Some 1) =
     Inr (Some \<lparr>centri_score_weight = 1, scores_of = threshold_evaluate [] [] 1\<rparr>)"
proof -
  have h: "(1 :: rat) \<noteq> 0" by simp
  show ?thesis
    using h evaluate_label_blind[of threshold_evaluate 100 undefined 1 1 "[]" id None None]
    by (simp add: composite_scores_def column_def tensor_add_def tensor_sub_def scalar_mul_def)
qed

text \<open>
  C8. Claimed: every multiple of \<open>1 / granularity\<close> between the least and the greatest score,
  both ends included, is tried. The range is half open: for the example scores \<open>[-0.1, 3.0]\<close>
  and granularity 10, the threshold \<open>3.0\<close> is not tried, and \<open>2.9\<close> is the last one.
\<close>

theorem max_threshold_not_tried:
  "tensor_min (composite_scores example_matrix 1) = Inr (- 1 / 10) \<and>
   tensor_max (composite_scores example_matrix 1) = Inr 3 \<and>
   \<not> tried (composite_scores example_matrix 1) 10 (30 / 10) \<and>
   tried (composite_scores example_matrix 1) 10 (29 / 10)"
  by code_simp

text \<open>
  C8, as the code has it. For a positive granularity \<open>g\<close>, the thresholds tried are the
  quotients \<open>k / g\<close> for the integers \<open>k\<close> from \<open>int(min * g)\<close> up to, but not including,
  \<open>int(max * g)\<close>. So every multiple of \<open>1 / g\<close> between the least score and the greatest
  score minus \<open>1 / g\<close> is tried, and every threshold tried is above the least score minus
  \<open>1 / g\<close> and strictly below the greatest score.
\<close>

theorem threshold_range_half_open:
  assumes "scores \<noteq> []" "0 < g"
  shows "(tried scores g t \<longleftrightarrow>
           (\<exists>k. t = of_int k / of_int g \<and> py_int (Min (set scores) * of_int g) \<le> k \<and>
                k < py_int (Max (set scores) * of_int g))) \<and>
         (Min (set scores) \<le> of_int k / of_int g \<and>
          of_int k / of_int g \<le> Max (set scores) - 1 / of_int g \<longrightarrow>
            tried scores g (of_int k / of_int g)) \<and>
         (tried scores g t \<longrightarrow> Min (set scores) - 1 / of_int g < t \<and> t < Max (set scores))"
proof -
  let ?mn = "Min (set scores)" and ?mx = "Max (set scores)"
  have g: "(0::rat) < of_int g" using assms(2) by simp
  have a: "tried scores g (of_int k / of_int g)"
    if "?mn \<le> of_int k / of_int g" "of_int k / of_int g \<le> ?mx - 1 / of_int g"
  proof -
    have "?mn * of_int g \<le> of_int k" using that(1) g by (simp add: pos_le_divide_eq)
    then have 1: "py_int (?mn * of_int g) \<le> k" by (rule py_int_le)
    have "(of_int k + 1) / of_int g \<le> ?mx" using that(2) by (simp add: add_divide_distrib)
    then have "of_int k + 1 \<le> ?mx * of_int g" using g by (simp add: pos_divide_le_eq)
    then have 2: "k < py_int (?mx * of_int g)" by (rule py_int_gt)
    show ?thesis unfolding tried_iff[OF assms(1)] using 1 2 by (intro exI[of _ k]) simp
  qed
  have b: "?mn - 1 / of_int g < t \<and> t < ?mx" if "tried scores g t"
  proof -
    from that[unfolded tried_iff[OF assms(1)]]
    obtain k where k: "t = of_int k / of_int g" "py_int (?mn * of_int g) \<le> k"
        "k < py_int (?mx * of_int g)"
      by (elim exE conjE)
    have "?mn * of_int g - 1 < of_int k" using k(2) by (rule py_int_le_D)
    then have "(?mn * of_int g - 1) / of_int g < of_int k / of_int g"
      using g by (simp add: divide_strict_right_mono)
    then have 1: "?mn - 1 / of_int g < t" using g k(1) by (simp add: diff_divide_distrib)
    have "of_int k < ?mx * of_int g" using k(3) by (rule py_int_gt_D)
    then have 2: "t < ?mx" using g k(1) by (simp add: pos_divide_less_eq)
    show ?thesis using 1 2 by simp
  qed
  show ?thesis
  proof (intro conjI impI)
    show "tried scores g t \<longleftrightarrow>
           (\<exists>k. t = of_int k / of_int g \<and> py_int (?mn * of_int g) \<le> k \<and>
                k < py_int (?mx * of_int g))"
      by (rule tried_iff[OF assms(1)])
  next
    assume "?mn \<le> of_int k / of_int g \<and> of_int k / of_int g \<le> ?mx - 1 / of_int g"
    then show "tried scores g (of_int k / of_int g)" using a by simp
  next
    assume "tried scores g t"
    then show "?mn - 1 / of_int g < t" using b by simp
  next
    assume "tried scores g t"
    then show "t < ?mx" using b by simp
  qed
qed

theorem threshold_range_half_open_witness:
  "[1 / 4, 1 :: rat] \<noteq> [] \<and> (0::int) < 2 \<and>
   Min (set [1 / 4, 1 :: rat]) \<le> of_int 1 / of_int 2 \<and>
   of_int 1 / of_int 2 \<le> Max (set [1 / 4, 1 :: rat]) - 1 / of_int 2 \<and>
   tried [1 / 4, 1] 2 (of_int 1 / of_int 2)"
proof -
  have h1: "[1 / 4, 1 :: rat] \<noteq> []" by simp
  have h2: "(0::int) < 2" by simp
  have h3: "Min (set [1 / 4, 1 :: rat]) \<le> of_int 1 / of_int 2" by simp
  have h4: "of_int 1 / of_int 2 \<le> Max (set [1 / 4, 1 :: rat]) - 1 / of_int 2" by simp
  note th = threshold_range_half_open[OF h1 h2, of "1 / 2" 1]
  have "tried [1 / 4, 1] 2 (of_int 1 / of_int 2)"
    using th[THEN conjunct2, THEN conjunct1] h3 h4 by simp
  then show ?thesis using h1 h2 h3 h4 by simp
qed

section \<open>Claims about the hyperbolic loss\<close>

text \<open>
  C6. Claimed: a label tensor with a value other than 0 or 1, or anchor and other embeddings
  of different shapes, make \<open>forward\<close> reject the batch. Nothing in \<open>forward\<close> inspects the
  labels: a batch of one pair with the label 2 goes through the same formulas and a loss is
  returned.
\<close>

theorem non_binary_label_accepted:
  "\<not> rejected (forward unit_ball default_weights [[[1 / 2]], [[1 / 4]]] [2])"
proof -
  have "well_shaped 1 [[1 / 2]] [[1 / 4]] [2]" by (simp add: well_shaped_def)
  then obtain v where "forward unit_ball default_weights [[[1 / 2]], [[1 / 4]]] [2] = Inr v"
    using forward_well_shaped by blast
  then show ?thesis by (simp add: rejected_def)
qed

text \<open>
  C6, as the code has it. \<open>forward\<close> does not validate its input, and the values of the
  labels play no part in whether a batch is rejected. A batch is rejected exactly when the
  encoder returns a number of embeddings other than two, which fails the assertion, or when
  the tensor library cannot broadcast the shapes: the two batch sizes, the dimensions of the
  rows that are paired, or the number of labels against the size of the batch. Every other
  batch, whatever its labels, gets a loss by the same formulas.
\<close>

theorem forward_rejects_on_shapes_only:
  "(rejected (forward m lw reps labels) \<longleftrightarrow>
      length reps \<noteq> 2 \<or> (\<exists>A B. reps = [A, B] \<and> \<not> shapes_broadcast A B labels)) \<and>
   (length reps \<noteq> 2 \<longrightarrow> forward m lw reps labels = Inl AssertionError) \<and>
   (\<not> shapes_broadcast A B labels \<longrightarrow> forward m lw [A, B] labels = Inl ShapeError) \<and>
   (length labels' = length labels \<longrightarrow>
      rejected (forward m lw reps labels') = rejected (forward m lw reps labels))"
proof -
  have pair: "rejected (forward m lw [X, Y] ls) = (\<not> shapes_broadcast X Y ls)" for X Y ls
  proof (cases "shapes_broadcast X Y ls")
    case True
    then show ?thesis using forward_pair(2)[of X Y ls m lw] by simp
  next
    case False
    then have "forward m lw [X, Y] ls = Inl ShapeError"
      by (rule forward_pair(1))
    then show ?thesis using False by (simp add: rejected_def)
  qed
  have two: "\<exists>X Y. reps = [X, Y]" if "length reps = 2"
    using that by (auto simp: length_Suc_conv numeral_2_eq_2)
  have iff: "rejected (forward m lw reps ls) \<longleftrightarrow>
      length reps \<noteq> 2 \<or> (\<exists>X Y. reps = [X, Y] \<and> \<not> shapes_broadcast X Y ls)" for ls
  proof (cases "length reps = 2")
    case True
    then obtain X Y where r: "reps = [X, Y]" using two by blast
    show ?thesis unfolding r using pair[of X Y ls] by simp
  next
    case False
    then show ?thesis using forward_assertion[of reps m lw ls] by (simp add: rejected_def)
  qed
  have sb: "shapes_broadcast X Y labels' = shapes_broadcast X Y labels"
    if "length labels' = length labels" for X Y
    using that by (simp add: shapes_broadcast_def)
  have c1: "rejected (forward m lw reps labels) \<longleftrightarrow>
      length reps \<noteq> 2 \<or> (\<exists>A B. reps = [A, B] \<and> \<not> shapes_broadcast A B labels)"
    by (rule iff)
  have c2: "length reps \<noteq> 2 \<longrightarrow> forward m lw reps labels = Inl AssertionError"
    using forward_assertion by blast
  have c3: "\<not> shapes_broadcast A B labels \<longrightarrow> forward m lw [A, B] labels = Inl ShapeError"
    using forward_pair(1) by blast
  have c4: "length labels' = length labels \<longrightarrow>
      rejected (forward m lw reps labels') = rejected (forward m lw reps labels)"
    using iff[of labels'] iff[of labels] sb by simp
  show ?thesis using c1 c2 c3 c4 by blast
qed

theorem forward_rejects_on_shapes_only_witness:
  "shapes_broadcast [[1 / 2]] [[1 / 4]] [7] \<and>
   \<not> rejected (forward unit_ball default_weights [[[1 / 2]], [[1 / 4]]] [7]) \<and>
   \<not> shapes_broadcast [[1 / 2, 0]] [[1 / 4, 0, 0]] [1] \<and>
   forward unit_ball default_weights [[[1 / 2, 0]], [[1 / 4, 0, 0]]] [1] = Inl ShapeError \<and>
   rejected (forward unit_ball default_weights [[[1 / 2, 0]], [[1 / 4, 0, 0]]] [1]) \<and>
   \<not> shapes_broadcast [[1 / 2], [1 / 3]] [[1 / 4], [1 / 5]] [1, 0, 1] \<and>
   forward unit_ball default_weights [[[1 / 2], [1 / 3]], [[1 / 4], [1 / 5]]] [1, 0, 1] =
     Inl ShapeError \<and>
   length [[[1 / 2 :: real]]] \<noteq> 2 \<and>
   forward unit_ball default_weights [[[1 / 2]]] [1] = Inl AssertionError \<and>
   rejected (forward unit_ball default_weights [[[1 / 2]]] [1]) \<and>
   length [7 :: int] = length [1 :: int] \<and>
   rejected (forward unit_ball default_weights [[[1 / 2]], [[1 / 4]]] [7]) =
     rejected (forward unit_ball default_weights [[[1 / 2]], [[1 / 4]]] [1])"
proof -
  have h1: "shapes_broadcast [[1 / 2]] [[1 / 4]] [7]"
    by (simp add: shapes_broadcast_def compatible_def bmap2_def)
  have h2: "\<not> shapes_broadcast [[1 / 2, 0]] [[1 / 4, 0, 0]] [1]"
    by (simp add: shapes_broadcast_def compatible_def bmap2_def)
  have h3: "\<not> shapes_broadcast [[1 / 2], [1 / 3]] [[1 / 4], [1 / 5]] [1, 0, 1]"
    by (simp add: shapes_broadcast_def compatible_def bmap2_def)
  have h4: "length [[[1 / 2 :: real]]] \<noteq> 2" by simp
  have h5: "length [7 :: int] = length [1 :: int]" by simp
  have a: "\<not> rejected (forward unit_ball default_weights [[[1 / 2]], [[1 / 4]]] [7])"
    using h1 forward_rejects_on_shapes_only[of unit_ball default_weights
        "[[[1 / 2]], [[1 / 4]]]" "[7]" "[]" "[]" "[7]"]
    by simp
  have b: "forward unit_ball default_weights [[[1 / 2, 0]], [[1 / 4, 0, 0]]] [1] =
             Inl ShapeError \<and>
           rejected (forward unit_ball default_weights [[[1 / 2, 0]], [[1 / 4, 0, 0]]] [1])"
    using h2 forward_rejects_on_shapes_only[of unit_ball default_weights
        "[[[1 / 2, 0]], [[1 / 4, 0, 0]]]" "[1]" "[[1 / 2, 0]]" "[[1 / 4, 0, 0]]" "[1]"]
    by (simp add: rejected_def)
  have c: "forward unit_ball default_weights [[[1 / 2], [1 / 3]], [[1 / 4], [1 / 5]]]
             [1, 0, 1] = Inl ShapeError"
    using h3 forward_rejects_on_shapes_only[of unit_ball default_weights
        "[[[1 / 2], [1 / 3]], [[1 / 4], [1 / 5]]]" "[1, 0, 1]" "[[1 / 2], [1 / 3]]"
        "[[1 / 4], [1 / 5]]" "[1, 0, 1]"]
    by blast
  have d: "forward unit_ball default_weights [[[1 / 2]]] [1] = Inl AssertionError \<and>
           rejected (forward unit_ball default_weights [[[1 / 2]]] [1])"
    using h4 forward_rejects_on_shapes_only[of unit_ball default_weights "[[[1 / 2]]]" "[1]"
        "[]" "[]" "[1]"]
    by (simp add: rejected_def)
  have e: "rejected (forward unit_ball default_weights [[[1 / 2]], [[1 / 4]]] [7]) =
           rejected (forward unit_ball default_weights [[[1 / 2]], [[1 / 4]]] [1])"
    using h5 forward_rejects_on_shapes_only[of unit_ball default_weights
        "[[[1 / 2]], [[1 / 4]]]" "[1]" "[]" "[]" "[7]"]
    by blast
  show ?thesis using h1 h2 h3 h4 h5 a b c d e by blast
qed




text \<open>
  C10. For a batch in which every label is 0, the centripetal term divides by the sum of the
  labels, which is 0, and \<open>forward\<close> returns NaN. The numerator is 0 or NaN, so the quotient
  is NaN, and NaN stays NaN when multiplied by the weight and added to the other terms; this
  holds for every weight, a non-zero one in particular, and for the empty batch too.
\<close>

theorem forward_nan_without_positives:
  assumes "well_shaped d rep_anchor rep_other labels" "list_all (\<lambda>l. l = 0) labels"
  shows "forward m lw [rep_anchor, rep_other] labels = Inr NaN"
proof -
  let ?rs = "map trelu
               (map2 tsub
                  (map (tadd (Fin (1 / 2))) (map (\<lambda>x. mdist m x (origin x)) rep_other))
                  (map (\<lambda>x. mdist m x (origin x)) rep_anchor))"
  have fl: "float_of labels = replicate (length labels) (Fin 0)"
    using assms(2) by (rule float_of_zeros)
  have "list_all (\<lambda>x. x = Fin 0 \<or> x = NaN) (map2 tmul (replicate n (Fin 0)) rs)" for n rs
  proof (induction n arbitrary: rs)
    case 0
    then show ?case by simp
  next
    case (Suc n)
    then show ?case using tmul_zero_cases by (cases rs) auto
  qed
  then have "tsum (map2 tmul (float_of labels) ?rs) = Fin 0 \<or>
             tsum (map2 tmul (float_of labels) ?rs) = NaN"
    unfolding fl by (rule tsum_zero_or_NaN)
  then have "tdiv (tsum (map2 tmul (float_of labels) ?rs)) (tsum (float_of labels)) = NaN"
    by (auto simp: fl tsum_zeros)
  then show ?thesis
    using forward_well_shaped[OF assms(1), of m lw] by auto
qed

theorem forward_nan_without_positives_witness:
  "well_shaped 1 [[1 / 2]] [[1 / 4]] [0] \<and> list_all (\<lambda>l. l = 0) [0 :: int] \<and>
   forward unit_ball default_weights [[[1 / 2]], [[1 / 4]]] [0] = Inr NaN"
proof -
  have h1: "well_shaped 1 [[1 / 2]] [[1 / 4]] [0]" by (simp add: well_shaped_def)
  have h2: "list_all (\<lambda>l. l = 0) [0 :: int]" by simp
  show ?thesis
    using h1 h2 forward_nan_without_positives[OF h1 h2, of unit_ball default_weights] by simp
qed

end
